theory Spec2Isabelle
  imports Main "HOL-Library.Sublist"
begin

section \<open>Python strings\<close>

text \<open>
  A Python \<open>str\<close> is modelled as a \<^typ>\<open>string\<close> whose characters are the code points
  0..255 (Latin-1), which covers every literal of the sources (\<open>CHR 0xE9\<close> is e-acute,
  \<open>CHR 0xE0\<close> is a-grave). \<open>x in s\<close> on strings is \<^const>\<open>sublist\<close>.
\<close>

definition isspace :: "char \<Rightarrow> bool" where
  \<comment> \<open>\<open>str.isspace\<close> and the regular expression class \<open>\s\<close> on code points below 256\<close>
  "isspace c = (let n = (of_char c :: nat)
                in (9 \<le> n \<and> n \<le> 13) \<or> (28 \<le> n \<and> n \<le> 32) \<or> n = 133 \<or> n = 160)"

definition lower_char :: "char \<Rightarrow> char" where
  \<comment> \<open>\<open>str.lower\<close> on one code point below 256: A-Z and the accented capitals move up by 32\<close>
  "lower_char c = (let n = (of_char c :: nat)
                   in if (65 \<le> n \<and> n \<le> 90) \<or> (192 \<le> n \<and> n \<le> 214) \<or> (216 \<le> n \<and> n \<le> 222)
                      then char_of (n + 32) else c)"

definition lower :: "string \<Rightarrow> string" where
  "lower s = map lower_char s"

definition lstrip :: "string \<Rightarrow> string" where
  "lstrip s = dropWhile isspace s"

definition rstrip :: "string \<Rightarrow> string" where
  "rstrip s = rev (dropWhile isspace (rev s))"

definition strip :: "string \<Rightarrow> string" where
  "strip s = rstrip (lstrip s)"

definition strip_chars :: "string \<Rightarrow> string \<Rightarrow> string" where
  \<comment> \<open>\<open>s.strip(chars)\<close>\<close>
  "strip_chars chars s =
     rev (dropWhile (\<lambda>c. c \<in> set chars) (rev (dropWhile (\<lambda>c. c \<in> set chars) s)))"

definition is_digit :: "char \<Rightarrow> bool" where
  "is_digit c = (let n = (of_char c :: nat) in 48 \<le> n \<and> n \<le> 57)"

definition any_in :: "string list \<Rightarrow> string \<Rightarrow> bool" where
  \<comment> \<open>\<open>any(k in s for k in ks)\<close>\<close>
  "any_in ks s = list_ex (\<lambda>k. sublist k s) ks"

definition truthy :: "string option \<Rightarrow> bool" where
  \<comment> \<open>the truth value of an \<open>Optional[str]\<close>: neither \<open>None\<close> nor \<open>""\<close>\<close>
  "truthy t = (case t of None \<Rightarrow> False | Some s \<Rightarrow> s \<noteq> [])"

fun split_char :: "char \<Rightarrow> string \<Rightarrow> string list" where
  \<comment> \<open>\<open>s.split(d)\<close> for a one-character separator\<close>
  "split_char d [] = [[]]"
| "split_char d (c # cs) =
     (if c = d then [] # split_char d cs
      else (case split_char d cs of [] \<Rightarrow> [[c]] | p # ps \<Rightarrow> (c # p) # ps))"

fun find_sub :: "string \<Rightarrow> string \<Rightarrow> nat" where
  \<comment> \<open>\<open>s.index(sub)\<close>, called only where \<open>sub in s\<close>\<close>
  "find_sub sub [] = 0"
| "find_sub sub (c # cs) = (if prefix sub (c # cs) then 0 else Suc (find_sub sub cs))"

definition digit_char :: "nat \<Rightarrow> char" where
  "digit_char n = char_of (48 + n)"

fun str_of_nat :: "nat \<Rightarrow> string" where
  "str_of_nat n = (if n < 10 then [digit_char n]
                   else str_of_nat (n div 10) @ [digit_char (n mod 10)])"

declare str_of_nat.simps [simp del]

definition str_of_int :: "int \<Rightarrow> string" where
  \<comment> \<open>\<open>str(n)\<close> on an \<open>int\<close>\<close>
  "str_of_int i = (if i < 0 then CHR ''-'' # str_of_nat (nat (- i)) else str_of_nat (nat i))"

definition digits_value :: "string \<Rightarrow> nat" where
  "digits_value ds = foldl (\<lambda>acc c. 10 * acc + (of_char c - 48)) 0 ds"

fun digits_grouped :: "string \<Rightarrow> bool" where
  \<comment> \<open>digits, with single underscores allowed between two digits\<close>
  "digits_grouped [] = False"
| "digits_grouped [c] = is_digit c"
| "digits_grouped (c # d # cs) =
     (is_digit c \<and> (if d = CHR ''_'' then digits_grouped cs else digits_grouped (d # cs)))"

definition int_space :: "char \<Rightarrow> bool" where
  \<comment> \<open>the whitespace \<open>int\<close> strips: that of \<open>str.strip\<close> but for the four separators
      U+001C to U+001F\<close>
  "int_space c = (isspace c \<and> \<not> (let n = (of_char c :: nat) in 28 \<le> n \<and> n \<le> 31))"

definition MAX_STR_DIGITS :: nat where
  \<comment> \<open>\<open>sys.int_info.default_max_str_digits\<close>\<close>
  "MAX_STR_DIGITS = 4300"

definition int_of_str :: "string \<Rightarrow> int option" where
  \<comment> \<open>\<open>int(s)\<close> on a \<open>str\<close>; \<open>None\<close> is the \<open>ValueError\<close>, also raised for a numeral of
      more than \<open>MAX_STR_DIGITS\<close> digits\<close>
  "int_of_str s =
    (let t = rev (dropWhile int_space (rev (dropWhile int_space s)));
         neg = (t \<noteq> [] \<and> hd t = CHR ''-'');
         body = (if t \<noteq> [] \<and> (hd t = CHR ''-'' \<or> hd t = CHR ''+'') then tl t else t);
         digits = filter is_digit body
     in if digits_grouped body \<and> length digits \<le> MAX_STR_DIGITS
        then let v = int (digits_value digits) in Some (if neg then - v else v)
        else None)"

section \<open>Regular expressions (the subset of Python's \<open>re\<close> the sources use)\<close>

datatype regex =
    Atom "char \<Rightarrow> bool"
  | Eps
  | Eos
  | Seq regex regex
  | Alt regex regex
  | Star regex

definition dot :: regex where
  "dot = Atom (\<lambda>c. c \<noteq> CHR 0x0A)"

definition ws :: regex where
  "ws = Atom isspace"

definition lit :: "string \<Rightarrow> regex" where
  "lit s = foldr (\<lambda>c r. Seq (Atom (\<lambda>d. d = c)) r) s Eps"

definition lit_i :: "string \<Rightarrow> regex" where
  \<comment> \<open>a literal under \<open>re.I\<close>\<close>
  "lit_i s = foldr (\<lambda>c r. Seq (Atom (\<lambda>d. lower_char d = lower_char c)) r) s Eps"

definition seqs :: "regex list \<Rightarrow> regex" where
  "seqs rs = foldr Seq rs Eps"

definition alt_list :: "regex list \<Rightarrow> regex" where
  \<comment> \<open>\<open>a|b|c\<close>, tried left to right\<close>
  "alt_list rs = foldr Alt (butlast rs) (last rs)"

definition alts :: "string list \<Rightarrow> regex" where
  \<comment> \<open>\<open>(a|b|c)\<close> over literals\<close>
  "alts ss = alt_list (map lit ss)"

definition re_plus :: "regex \<Rightarrow> regex" where
  "re_plus r = Seq r (Star r)"

definition re_opt :: "regex \<Rightarrow> regex" where
  "re_opt r = Alt r Eps"

text \<open>
  \<open>re_ends r s\<close> lists what is left of \<open>s\<close> after each way \<open>r\<close> can match a prefix of
  \<open>s\<close>, in the order a backtracking matcher tries them (left alternative first, longest
  repetition first): the head is the match Python reports at that position.
\<close>

fun re_ends :: "regex \<Rightarrow> string \<Rightarrow> string list" where
  "re_ends (Atom p) s = (case s of [] \<Rightarrow> [] | c # cs \<Rightarrow> if p c then [cs] else [])"
| "re_ends Eps s = [s]"
| "re_ends Eos s = (if s = [] \<or> s = [CHR 0x0A] then [s] else [])"
| "re_ends (Seq a b) s = concat (map (re_ends b) (re_ends a s))"
| "re_ends (Alt a b) s = re_ends a s @ re_ends b s"
| "re_ends (Star r) s =
     concat (map (re_ends (Star r)) (filter (\<lambda>t. length t < length s) (re_ends r s))) @ [s]"

fun re_search :: "regex \<Rightarrow> string \<Rightarrow> bool" where
  "re_search r [] = (re_ends r [] \<noteq> [])"
| "re_search r (c # cs) = (re_ends r (c # cs) \<noteq> [] \<or> re_search r cs)"

definition re_match :: "regex \<Rightarrow> string \<Rightarrow> bool" where
  "re_match r s = (re_ends r s \<noteq> [])"

fun re_sub :: "regex \<Rightarrow> string \<Rightarrow> string \<Rightarrow> string" where
  "re_sub r repl [] = []"
| "re_sub r repl (c # cs) =
     (case re_ends r (c # cs) of
        [] \<Rightarrow> c # re_sub r repl cs
      | t # _ \<Rightarrow> if length t < length (c # cs) then repl @ re_sub r repl t
                 else c # re_sub r repl cs)"

section \<open>experience\_map.py\<close>

definition YEARS_JAVA_CORE :: int where "YEARS_JAVA_CORE = 4"
definition YEARS_PRIMARY :: int where "YEARS_PRIMARY = 3"
definition YEARS_OTHER :: int where "YEARS_OTHER = 2"
definition TOTAL_YEARS_DEFAULT :: int where "TOTAL_YEARS_DEFAULT = 3"

definition TECH_4_YEARS :: "string list" where
  "TECH_4_YEARS = [''java'', ''core java'', ''java se'', ''jvm'']"

definition TECH_3_YEARS :: "string list" where
  "TECH_3_YEARS =
    [''spring'', ''spring boot'', ''springboot'', ''postgres'', ''postgresql'', ''mysql'',
     ''websocket'', ''web socket'', ''webservices'', ''web services'', ''rest api'',
     ''restapis'', ''restful'', ''react'', ''angular'', ''mockito'', ''unit test'',
     ''unittesting'', ''junit'', ''agile'', ''scrum'', ''agile/scrum'', ''microservices'',
     ''docker'', ''ci/cd'', ''git'', ''nestjs'', ''typescript'', ''ejb'',
     ''enterprise javabeans'', ''data structures'', ''keycloak'', ''rbac'', ''graphql'',
     ''graph ql'', ''ruby'', ''banking'', ''angular ui'', ''ui integration'']"

definition YES_NO_EXPERIENCE_PATTERNS :: "regex list" where
  "YES_NO_EXPERIENCE_PATTERNS =
    [seqs [lit ''do you have '', Star dot, lit '' experience''],
     lit ''do you have experience'',
     seqs [lit ''do you have '', alts [''at least'', ''an understanding of'']],
     seqs [lit ''have you '', alts [''worked'', ''used'', ''experience'']],
     seqs [lit ''are you '', alts [''experienced'', ''familiar'']],
     seqs [lit ''experience with '', Star dot, lit ''?''],
     seqs [lit ''experience '', alts [''programming'', ''using'', ''with'']],
     seqs [lit ''avez-vous '', Star dot, lit ('' exp'' @ [CHR 0xE9] @ ''rience'')],
     lit ''oui ou non'',
     lit ''yes or no'',
     lit ''yes/no'']"

definition normalize_label :: "string \<Rightarrow> string" where
  \<comment> \<open>\<open>_normalize_label\<close>: \<open>re.sub(r"\s+", " ", (label or "").lower().strip())\<close>\<close>
  "normalize_label label = re_sub (re_plus ws) '' '' (strip (lower label))"

definition YEAR_KEYWORDS :: "string list" where
  "YEAR_KEYWORDS = [''year'', ''years'', ''ann'' @ [CHR 0xE9] @ ''e'',
                    ''exp'' @ [CHR 0xE9] @ ''rience'', ''experience'']"

definition get_years_for_question :: "string \<Rightarrow> int option" where
  "get_years_for_question question_label =
    (if question_label = [] then None
     else let text = normalize_label question_label in
       if \<not> any_in YEAR_KEYWORDS text then None
       else if sublist ''total'' text \<and> (sublist ''year'' text \<or> sublist ''experience'' text)
         then Some TOTAL_YEARS_DEFAULT
       else if any_in TECH_4_YEARS text then Some YEARS_JAVA_CORE
       else if any_in TECH_3_YEARS text then Some YEARS_PRIMARY
       else if sublist ''year'' text \<or> sublist ''experience'' text then Some YEARS_OTHER
       else None)"

definition is_yes_no_experience_question :: "string \<Rightarrow> bool" where
  "is_yes_no_experience_question question_label =
    (if question_label = [] then False
     else let text = normalize_label question_label in
       if sublist ''how many'' text \<and> sublist ''years'' text then False
       else list_ex (\<lambda>pat. re_search pat text) YES_NO_EXPERIENCE_PATTERNS)"

definition get_yes_no_for_experience :: "string \<Rightarrow> string option" where
  "get_yes_no_for_experience question_label =
    (if \<not> is_yes_no_experience_question question_label then None
     else let years = (case get_years_for_question question_label of
                         None \<Rightarrow> YEARS_OTHER | Some y \<Rightarrow> y)
          in Some (if years > 0 then ''Yes'' else ''No''))"

section \<open>config.py\<close>

text \<open>
  The module-level settings read from the environment, as one record. The three flags
  \<open>genai_installed\<close>, \<open>groq_installed\<close> and \<open>pypdf_installed\<close> stand for the optional
  imports (\<open>genai\<close>, \<open>Groq\<close> and \<open>PdfReader\<close> are \<open>None\<close> when the import fails).
\<close>

record config =
  DEFAULT_LOCATION_CITY :: string
  EASY_APPLY_CERTIFICATIONS :: string
  EASY_APPLY_CURRENT_COMPANY :: string
  EASY_APPLY_CURRENT_TITLE :: string
  EASY_APPLY_FIRST_NAME :: string
  EASY_APPLY_GENDER :: string
  EASY_APPLY_HYBRID_ANSWER :: string
  EASY_APPLY_LAST_NAME :: string
  NOTICE_PERIOD_DEFAULT :: string
  WORK_AUTHORIZATION_ANSWER :: string
  WORK_NEED_SPONSORSHIP_ANSWER :: string
  WORK_AUTHORIZATION_COUNTRY :: string
  GEMINI_API_KEY :: string
  GROQ_API_KEY :: string
  USE_GEMINI_FOR_CV :: bool
  genai_installed :: bool
  groq_installed :: bool
  pypdf_installed :: bool

definition default_config :: config where
  \<comment> \<open>the defaults of \<open>os.getenv\<close> in config.py, with every optional package installed\<close>
  "default_config =
    \<lparr> DEFAULT_LOCATION_CITY = ''Casablanca'',
      EASY_APPLY_CERTIFICATIONS = [],
      EASY_APPLY_CURRENT_COMPANY = [],
      EASY_APPLY_CURRENT_TITLE = [],
      EASY_APPLY_FIRST_NAME = [],
      EASY_APPLY_GENDER = [],
      EASY_APPLY_HYBRID_ANSWER = ''Yes'',
      EASY_APPLY_LAST_NAME = [],
      NOTICE_PERIOD_DEFAULT = ''3 months'',
      WORK_AUTHORIZATION_ANSWER = ''No'',
      WORK_NEED_SPONSORSHIP_ANSWER = ''Yes'',
      WORK_AUTHORIZATION_COUNTRY = ''Canada'',
      GEMINI_API_KEY = [],
      GROQ_API_KEY = [],
      USE_GEMINI_FOR_CV = True,
      genai_installed = True,
      groq_installed = True,
      pypdf_installed = True \<rparr>"

section \<open>work\_authorization.py\<close>

definition WORK_AUTH_PATTERNS :: "regex list" where
  "WORK_AUTH_PATTERNS =
    [lit ''citizenship'',
     lit ''citizen of'',
     lit ''authorized to work'',
     seqs [lit ''legally '', alts [''eligible'', ''authorized''], lit '' to work''],
     lit ''right to work'',
     seqs [lit ''resid'', alts [''e'', ''ency''], lit '' in''],
     seqs [lit ''currently '', alts [''live'', ''reside'']],
     seqs [lit ''work '', alts [''permit'', ''authorization'', ''visa'']],
     lit (''citoyennet'' @ [CHR 0xE9]),
     lit (''autoris'' @ [CHR 0xE9] @ '' '' @ [CHR 0xE0] @ '' travailler''),
     lit (''r'' @ [CHR 0xE9] @ ''sidence''),
     seqs [lit ''work in '', alts [''canada'', ''usa'', ''united states'', ''uk'', ''france'']]]"

definition SPONSORSHIP_QUESTION_PATTERNS :: "regex list" where
  "SPONSORSHIP_QUESTION_PATTERNS =
    [seqs [lit ''require'', Star dot, lit ''sponsorship''],
     seqs [lit ''need'', Star dot, lit ''sponsorship''],
     seqs [lit ''do you '', alts [''need'', ''require''], lit '' sponsorship''],
     seqs [lit ''sponsorship '', alts [''required'', ''needed'']],
     seqs [lit ''sponsorship'', Star dot, re_opt (lit ''employment''), Star dot, lit ''visa''],
     seqs [lit ''visa'', Star dot, lit ''sponsorship''],
     seqs [lit ''will you '', Star dot, lit '' require sponsorship''],
     lit ''sponsorship for employment visa'',
     seqs [lit ''parrainage'', Star dot, alts [''immigration'', ''autorisation'', ''travail'']],
     seqs [lit ''aur'', alts [''ez'', ''ez-vous''], Star dot, lit ''parrainage'']]"

definition COUNTRIES :: "string list" where
  "COUNTRIES = [''canada'', ''usa'', ''united states'', ''uk'', ''france'', ''germany'',
                ''maroc'', ''morocco'']"

definition normalize :: "string \<Rightarrow> string" where
  \<comment> \<open>\<open>_normalize\<close> of work\_authorization.py\<close>
  "normalize label = re_sub (re_plus ws) '' '' (strip (lower label))"

definition work_subject :: "string \<Rightarrow> bool" where
  \<comment> \<open>\<open>"work" in text or "authorized" in text or "citizen" in text or "resid" in text\<close>\<close>
  "work_subject text =
     (sublist ''work'' text \<or> sublist ''authorized'' text \<or> sublist ''citizen'' text
      \<or> sublist ''resid'' text)"

definition is_work_authorization_question :: "config \<Rightarrow> string \<Rightarrow> bool" where
  \<comment> \<open>called with the default \<open>country_hint=""\<close> only\<close>
  "is_work_authorization_question cfg question_label =
    (if question_label = [] then False
     else let text = normalize question_label;
              country = lower (WORK_AUTHORIZATION_COUNTRY cfg) in
       if list_ex (\<lambda>pat. re_search pat text) WORK_AUTH_PATTERNS then True
       else if list_ex (\<lambda>c. sublist c text \<and> work_subject text) COUNTRIES then True
       else if sublist country text \<and> work_subject text then True
       else False)"

definition sponsorship_rule :: "string \<Rightarrow> bool" where
  \<comment> \<open>the four tests of \<open>get_work_authorization_answer\<close> that answer
      \<open>WORK_NEED_SPONSORSHIP_ANSWER\<close>, on the normalized text\<close>
  "sponsorship_rule text =
    (if list_ex (\<lambda>pat. re_search pat text) SPONSORSHIP_QUESTION_PATTERNS then True
     else if sublist ''sponsorship'' text
             \<and> (sublist ''require'' text \<or> sublist ''need'' text \<or> sublist ''future'' text)
       then True
     else if sublist ''visa'' text \<and> sublist ''sponsorship'' text then True
     else if sublist ''parrainage'' text
             \<and> (sublist ''immigration'' text \<or> sublist ''autorisation'' text
                  \<or> sublist ''travail'' text \<or> sublist ''aurez'' text)
       then True
     else False)"

definition get_work_authorization_answer :: "config \<Rightarrow> string \<Rightarrow> string option" where
  "get_work_authorization_answer cfg question_label =
    (if question_label = [] then None
     else let text = normalize question_label in
       if sponsorship_rule text then Some (WORK_NEED_SPONSORSHIP_ANSWER cfg)
       else if \<not> is_work_authorization_question cfg question_label then None
       else Some (WORK_AUTHORIZATION_ANSWER cfg))"

section \<open>gemini\_cv.py\<close>

text \<open>
  The two completion services and the file system are outside the program. The model
  carries them in a \<open>world\<close> that every function taking part in an effect receives and
  returns: the replies the services will give, consumed one per call in call order
  whatever the prompt (so prompts are not built), the PDF files, and the module-level
  cache \<open>_cv_text_cache\<close>. A call on an exhausted reply list fails like a raised error.
\<close>

datatype gemini_reply =
    GeminiResponse "string option"  \<comment> \<open>\<open>response.text\<close>, \<open>None\<close> also for a falsy response\<close>
  | GeminiRaises string             \<comment> \<open>an exception, with \<open>str(e)\<close>\<close>

datatype groq_reply =
    GroqContent "string option"     \<comment> \<open>\<open>r.choices[0].message.content\<close>\<close>
  | GroqNoChoices
  | GroqRaises

datatype page = PageText "string option" | PageRaises

datatype pdf_read =
    ExistsRaises          \<comment> \<open>\<open>Path(cv_path).exists()\<close> raises (a name too long, no permission)\<close>
  | NoFile
  | ReadRaises            \<comment> \<open>\<open>PdfReader(cv_path)\<close> raises\<close>
  | Pages "page list"

datatype raised = OSError

record world =
  cv_cache :: "string option"
  pdf_files :: "string \<Rightarrow> pdf_read"
  gemini_replies :: "gemini_reply list"
  groq_replies :: "groq_reply list"

definition call_groq :: "config \<Rightarrow> world \<Rightarrow> string option \<times> world" where
  \<comment> \<open>\<open>_call_groq\<close>\<close>
  "call_groq cfg w =
    (if GROQ_API_KEY cfg = [] \<or> \<not> groq_installed cfg then (None, w)
     else case groq_replies w of
            [] \<Rightarrow> (None, w)
          | r # rs \<Rightarrow>
              (let w' = w\<lparr>groq_replies := rs\<rparr> in
               case r of
                 GroqContent c \<Rightarrow>
                   (let text = strip (case c of None \<Rightarrow> [] | Some t \<Rightarrow> t)
                    in (if text \<noteq> [] then Some text else None, w'))
               | GroqNoChoices \<Rightarrow> (None, w')
               | GroqRaises \<Rightarrow> (None, w')))"

definition quota_error :: "string \<Rightarrow> bool" where
  "quota_error msg = (sublist ''429'' msg \<or> sublist ''RESOURCE_EXHAUSTED'' msg)"

definition complete :: "config \<Rightarrow> world \<Rightarrow> string option \<times> world" where
  \<comment> \<open>the block every function of gemini\_cv.py repeats: Gemini first; Groq when Gemini
      failed on quota, and again when there is still no text\<close>
  "complete cfg w =
    (let (text, w1) =
           (if GEMINI_API_KEY cfg \<noteq> [] \<and> genai_installed cfg
            then (case gemini_replies w of
                    [] \<Rightarrow> (None, w)
                  | r # rs \<Rightarrow>
                      (let w' = w\<lparr>gemini_replies := rs\<rparr> in
                       case r of
                         GeminiResponse t \<Rightarrow> (t, w')
                       | GeminiRaises msg \<Rightarrow>
                           if quota_error msg then call_groq cfg w' else (None, w')))
            else (None, w))
     in if \<not> truthy text \<and> GROQ_API_KEY cfg \<noteq> [] \<and> groq_installed cfg
        then call_groq cfg w1 else (text, w1))"

definition isdigit_str :: "string \<Rightarrow> bool" where
  \<comment> \<open>\<open>str.isdigit\<close>, applied in the source to strings of ASCII digits and dots only\<close>
  "isdigit_str s = (s \<noteq> [] \<and> list_all is_digit s)"

definition get_salary_expectation_gemini :: "config \<Rightarrow> world \<Rightarrow> string \<times> world" where
  "get_salary_expectation_gemini cfg w =
    (let (text, w') = complete cfg w in
     (case text of
        None \<Rightarrow> ''95000''
      | Some t \<Rightarrow>
          if t = [] then ''95000''
          else let num = filter (\<lambda>c. is_digit c \<or> c = CHR ''.'') (strip t) in
            if num \<noteq> []
            then (if CHR ''.'' \<in> set num \<and> isdigit_str (hd (split_char CHR ''.'' num))
                  then hd (split_char CHR ''.'' num)
                  else if isdigit_str num then num else ''95000'')
            else ''95000'', w'))"

definition QUOTES :: string where
  "QUOTES = [CHR 0x22, CHR 0x27]"

definition option_matches :: "string \<Rightarrow> string \<Rightarrow> bool" where
  "option_matches chosen o' =
     (lower o' = lower chosen \<or> sublist (lower chosen) (lower o') \<or> sublist (lower o') (lower chosen))"

definition get_answer_from_options ::
  "config \<Rightarrow> string \<Rightarrow> string list \<Rightarrow> world \<Rightarrow> string option \<times> world" where
  "get_answer_from_options cfg question options w =
    (let opts = filter (\<lambda>o'. o' \<noteq> []) (map strip options) in
     case opts of
       [] \<Rightarrow> (None, w)
     | first # _ \<Rightarrow>
         (let (text, w') = complete cfg w in
          case text of
            None \<Rightarrow> (Some first, w')
          | Some t \<Rightarrow>
              if t = [] then (Some first, w')
              else let chosen = strip_chars QUOTES (strip t) in
                (case find (option_matches chosen) opts of
                   Some o' \<Rightarrow> (Some o', w')
                 | None \<Rightarrow> (Some first, w'))))"

definition short_answer :: "nat \<Rightarrow> string option \<Rightarrow> string option" where
  \<comment> \<open>\<open>str(text).strip().strip(QUOTES)[:max_length]\<close>, \<open>None\<close> when nothing is left\<close>
  "short_answer max_length text =
    (case text of
       None \<Rightarrow> None
     | Some t \<Rightarrow>
         if t = [] then None
         else let out = take max_length (strip_chars QUOTES (strip t))
              in if out \<noteq> [] then Some out else None)"

definition get_answer_any_question_gemini ::
  "config \<Rightarrow> string \<Rightarrow> nat \<Rightarrow> world \<Rightarrow> string option \<times> world" where
  "get_answer_any_question_gemini cfg question max_length w =
    (if strip question = [] then (None, w)
     else let (text, w') = complete cfg w in (short_answer max_length text, w'))"

definition get_years_of_experience_from_cv ::
  "config \<Rightarrow> string \<Rightarrow> string \<Rightarrow> world \<Rightarrow> string option \<times> world" where
  "get_years_of_experience_from_cv cfg question cv_text w =
    (if question = [] \<or> strip cv_text = [] \<or> length (strip cv_text) < 30 then (None, w)
     else let (text, w') = complete cfg w in
       (case text of
          None \<Rightarrow> (None, w')
        | Some t \<Rightarrow>
            if t = [] then (None, w')
            else let num = filter is_digit (strip t) in
              if num = [] then (None, w')
              else let n = int (digits_value (if length num \<ge> 2 then take 2 num else num))
                   in (Some (str_of_int (min 99 (max 0 n))), w')))"

definition get_answer_from_cv_with_gemini ::
  "config \<Rightarrow> string \<Rightarrow> string \<Rightarrow> nat \<Rightarrow> world \<Rightarrow> string option \<times> world" where
  "get_answer_from_cv_with_gemini cfg question cv_text max_length w =
    (if \<not> USE_GEMINI_FOR_CV cfg \<or> cv_text = [] \<or> question = [] then (None, w)
     else if strip question = [] \<or> length (strip cv_text) < 50 then (None, w)
     else let (text, w') = complete cfg w in (short_answer max_length text, w'))"

section \<open>cv\_reader.py\<close>

subsection \<open>More of \<open>re\<close>: \<open>split\<close>, \<open>findall\<close> and an anchored \<open>sub\<close>\<close>

text \<open>
  \<open>re_sub\<close>, \<open>re_split\<close> and \<open>re_findall\<close> scan from the left and take, at the first
  position where the pattern matches, the match a backtracking matcher finds first.
  Every pattern the sources pass to them needs at least one character, so the rules of
  Python for empty matches are not modelled (such a match is skipped).
\<close>

fun re_split_acc :: "regex \<Rightarrow> string \<Rightarrow> string \<Rightarrow> string list" where
  "re_split_acc r acc [] = [rev acc]"
| "re_split_acc r acc (c # cs) =
     (case re_ends r (c # cs) of
        [] \<Rightarrow> re_split_acc r (c # acc) cs
      | t # _ \<Rightarrow> if length t < length (c # cs) then rev acc # re_split_acc r [] t
                 else re_split_acc r (c # acc) cs)"

definition re_split :: "regex \<Rightarrow> string \<Rightarrow> string list" where
  "re_split r s = re_split_acc r [] s"

fun re_findall :: "regex \<Rightarrow> string \<Rightarrow> string list" where
  "re_findall r [] = []"
| "re_findall r (c # cs) =
     (case re_ends r (c # cs) of
        [] \<Rightarrow> re_findall r cs
      | t # _ \<Rightarrow> if length t < length (c # cs)
                 then take (length (c # cs) - length t) (c # cs) # re_findall r t
                 else re_findall r cs)"

definition re_sub_start :: "regex \<Rightarrow> string \<Rightarrow> string" where
  \<comment> \<open>\<open>re.sub("^" + r, "", s)\<close>: without \<open>re.M\<close> the pattern can match at position 0 only\<close>
  "re_sub_start r s = (case re_ends r s of [] \<Rightarrow> s | t # _ \<Rightarrow> t)"

definition char_re :: "char \<Rightarrow> regex" where
  "char_re c = Atom (\<lambda>d. d = c)"

definition TRAILING_QUESTION_MARKS :: regex where
  \<comment> \<open>\<open>r"\s*\?+\s*\*?\s*$"\<close>\<close>
  "TRAILING_QUESTION_MARKS =
     seqs [Star ws, re_plus (char_re CHR ''?''), Star ws, re_opt (char_re CHR ''*''), Star ws, Eos]"

definition CONJUNCTIONS :: regex where
  \<comment> \<open>\<open>r"\s+et/ou\s+|\s+and/or\s+|\s+and\s+|\s+or\s+|\s+et\s+|\s+ou\s+|,|/"\<close> with \<open>re.I\<close>\<close>
  "CONJUNCTIONS =
     alt_list [seqs [re_plus ws, lit_i ''et/ou'', re_plus ws],
               seqs [re_plus ws, lit_i ''and/or'', re_plus ws],
               seqs [re_plus ws, lit_i ''and'', re_plus ws],
               seqs [re_plus ws, lit_i ''or'', re_plus ws],
               seqs [re_plus ws, lit_i ''et'', re_plus ws],
               seqs [re_plus ws, lit_i ''ou'', re_plus ws],
               lit '','',
               lit ''/'']"

definition LEADING_ARTICLE :: regex where
  \<comment> \<open>\<open>r"(des?|du|de la|les?|the|using|utilisant)\s+"\<close> with \<open>re.I\<close>, anchored by \<open>^\<close>\<close>
  "LEADING_ARTICLE =
     Seq (alt_list [Seq (lit_i ''de'') (re_opt (lit_i ''s'')), lit_i ''du'', lit_i ''de la'',
                    Seq (lit_i ''le'') (re_opt (lit_i ''s'')), lit_i ''the'', lit_i ''using'',
                    lit_i ''utilisant''])
         (re_plus ws)"

definition is_word_char :: "char \<Rightarrow> bool" where
  \<comment> \<open>the class \<open>[a-zA-Z0-9+#./]\<close>\<close>
  "is_word_char c =
     (let n = (of_char c :: nat)
      in (97 \<le> n \<and> n \<le> 122) \<or> (65 \<le> n \<and> n \<le> 90) \<or> (48 \<le> n \<and> n \<le> 57)
         \<or> c = CHR ''+'' \<or> c = CHR ''#'' \<or> c = CHR ''.'' \<or> c = CHR ''/'')"

subsection \<open>Skill phrases of a question\<close>

definition SKILL_SEPARATORS :: "string list" where
  "SKILL_SEPARATORS = ['' with '', '' avec '', '' using '', '' utilisant '', '' in '']"

fun rest_after_separator :: "string \<Rightarrow> string list \<Rightarrow> string" where
  \<comment> \<open>the \<open>for sep in ...: ... break / else:\<close> loop that computes \<open>rest\<close>\<close>
  "rest_after_separator text [] = strip (re_sub TRAILING_QUESTION_MARKS [] text)"
| "rest_after_separator text (sep # seps) =
     (if sublist sep (lower text)
      then let idx = find_sub sep (lower text) + length sep;
               rest = strip (re_sub TRAILING_QUESTION_MARKS [] (strip (drop idx text)))
           in if 2 < length rest \<and> length rest < 150 then rest
              else rest_after_separator text seps
      else rest_after_separator text seps)"

fun dedupe :: "string list \<Rightarrow> string list \<Rightarrow> string list" where
  \<comment> \<open>the \<open>seen\<close> loop: first occurrences, in order, the empty string dropped\<close>
  "dedupe seen [] = []"
| "dedupe seen (ph # phs) =
     (if ph \<noteq> [] \<and> ph \<notin> set seen then ph # dedupe (ph # seen) phs else dedupe seen phs)"

definition STOP_WORDS :: "string list" where
  "STOP_WORDS = [''the'', ''and'', ''you'', ''have'', ''your'', ''avec'', ''experience'',
                 ''exp'' @ [CHR 0xE9] @ ''rience'', ''years'', ''ann'' @ [CHR 0xE9] @ ''es'']"

definition extract_skill_phrases_from_question :: "string \<Rightarrow> string list" where
  \<comment> \<open>\<open>_extract_skill_phrases_from_question\<close>\<close>
  "extract_skill_phrases_from_question question_label =
    (if question_label = [] \<or> strip question_label = [] then []
     else let text = strip question_label;
              rest0 = rest_after_separator text SKILL_SEPARATORS;
              after_colon = strip (last (split_char CHR '':'' rest0));
              rest = (if CHR '':'' \<in> set rest0 \<and> 2 < length after_colon \<and> length after_colon < 120
                      then after_colon else rest0);
              parts = re_split CONJUNCTIONS rest;
              cleaned = map (\<lambda>p. strip_chars '' .*'' (strip (re_sub_start LEADING_ARTICLE (strip p))))
                            parts;
              phrases = map lower (filter (\<lambda>p. 1 < length p \<and> length p < 60) cleaned);
              result = dedupe [] phrases;
              result' = (if result = [] \<and> rest \<noteq> []
                         then map lower (filter (\<lambda>word. 2 < length word \<and> lower word \<notin> set STOP_WORDS)
                                                (re_findall (re_plus (Atom is_word_char)) rest))
                         else result)
          in take 15 result')"

definition remove_spaces :: "string \<Rightarrow> string" where
  \<comment> \<open>\<open>s.replace(" ", "")\<close>\<close>
  "remove_spaces s = filter (\<lambda>c. c \<noteq> CHR '' '') s"

definition config_list_parts :: "string \<Rightarrow> string list" where
  \<comment> \<open>\<open>[p.strip().lower() for p in config_skills_list.split(",") if p.strip()]\<close>\<close>
  "config_list_parts config_skills_list =
     map (\<lambda>p. lower (strip p)) (filter (\<lambda>p. strip p \<noteq> []) (split_char CHR '','' config_skills_list))"

definition phrase_in_config_list :: "string \<Rightarrow> string \<Rightarrow> bool" where
  "phrase_in_config_list config_skills_list ph =
     (config_skills_list \<noteq> [] \<and> strip config_skills_list \<noteq> []
      \<and> list_ex (\<lambda>part. sublist part ph \<or> sublist ph part) (config_list_parts config_skills_list))"

definition phrase_in_cv :: "string \<Rightarrow> string \<Rightarrow> bool" where
  "phrase_in_cv cv_text ph =
     (cv_text \<noteq> [] \<and> strip cv_text \<noteq> []
      \<and> (sublist ph (lower cv_text)
           \<or> (3 < length ph \<and> sublist (remove_spaces ph) (remove_spaces (lower cv_text)))))"

definition skill_mentioned_in_cv :: "string \<Rightarrow> string \<Rightarrow> string \<Rightarrow> bool" where
  \<comment> \<open>\<open>_skill_mentioned_in_cv\<close>: the credential list is searched first, then the CV\<close>
  "skill_mentioned_in_cv question_label cv_text config_skills_list =
    (let phrases = extract_skill_phrases_from_question question_label in
     if phrases = [] then True
     else if list_ex (phrase_in_config_list config_skills_list) phrases then True
     else if list_ex (phrase_in_cv cv_text) phrases then True
     else False)"

subsection \<open>Certificates\<close>

definition has_certification :: "string \<Rightarrow> string \<Rightarrow> string \<Rightarrow> bool" where
  \<comment> \<open>\<open>_has_certification\<close>\<close>
  "has_certification cert_name cv_text config_list =
    (if cert_name = [] \<or> strip cert_name = [] then False
     else let cert_clean = lower (strip cert_name);
              cert_key = takeWhile (\<lambda>c. \<not> isspace c) cert_clean;
              cv_lower = lower cv_text in
       if sublist cert_key cv_lower then True
       else if sublist ''certif'' cv_lower \<and> sublist cert_key cv_lower then True
       else if sublist ''certified'' cv_lower \<and> sublist cert_key cv_lower then True
       else if config_list \<noteq> []
               \<and> list_ex (\<lambda>part. let part = lower (strip part)
                                  in part \<noteq> [] \<and> (sublist part cert_clean \<or> sublist cert_key part))
                          (split_char CHR '','' config_list)
         then True
       else False)"

definition after_first_colon :: "string \<Rightarrow> string" where
  \<comment> \<open>\<open>s.split(":", 1)[-1]\<close>\<close>
  "after_first_colon s = (if CHR '':'' \<in> set s then tl (dropWhile (\<lambda>c. c \<noteq> CHR '':'') s) else s)"

definition certification_question_and_name :: "string \<Rightarrow> string option" where
  \<comment> \<open>\<open>_certification_question_and_name\<close>; the result \<open>(True, name)\<close> is \<open>Some name\<close>\<close>
  "certification_question_and_name question_label =
    (if question_label = [] then None
     else let label_lower = lower question_label in
       if \<not> any_in [''certificat'', ''certification'', ''permit'', ''permis'', ''licence''] label_lower
       then None
       else let after_colon = strip (re_sub TRAILING_QUESTION_MARKS []
                                       (strip (after_first_colon question_label))) in
         if CHR '':'' \<in> set question_label \<and> after_colon \<noteq> [] \<and> length after_colon < 80
            \<and> \<not> list_ex (\<lambda>p. prefix p (lower after_colon)) [''avez'', ''do you'', ''have you'']
         then Some after_colon
         else if sublist ''certification'' label_lower \<or> sublist ''certificat'' label_lower
         then Some (strip question_label)
         else None)"

subsection \<open>The cached CV text\<close>

fun join :: "string \<Rightarrow> string list \<Rightarrow> string" where
  \<comment> \<open>\<open>sep.join(parts)\<close>\<close>
  "join sep [] = []"
| "join sep [p] = p"
| "join sep (p # q # ps) = p @ sep @ join sep (q # ps)"

definition page_text :: "page \<Rightarrow> string" where
  \<comment> \<open>\<open>p.extract_text() or ""\<close>\<close>
  "page_text p = (case p of PageText (Some t) \<Rightarrow> t | _ \<Rightarrow> [])"

definition load_cv_text :: "config \<Rightarrow> string \<Rightarrow> world \<Rightarrow> raised + string \<times> world" where
  \<comment> \<open>\<open>Path(cv_path).exists()\<close> stands outside the \<open>try\<close>: when it raises, the exception
      leaves the function\<close>
  "load_cv_text cfg cv_path w =
    (case cv_cache w of
       Some cached \<Rightarrow> Inr (cached, w)
     | None \<Rightarrow>
         if cv_path = [] then Inr ([], w)
         else (case pdf_files w cv_path of
                 ExistsRaises \<Rightarrow> Inl OSError
               | NoFile \<Rightarrow> Inr ([], w)
               | ReadRaises \<Rightarrow> Inr ([], w)
               | Pages ps \<Rightarrow>
                   if \<not> pypdf_installed cfg then Inr ([], w)
                   else if PageRaises \<in> set ps then Inr ([], w)
                   else let text = join [CHR 0x0A] (map page_text ps)
                        in Inr (text, w\<lparr>cv_cache := Some text\<rparr>)))"

definition cv_text_for :: "config \<Rightarrow> string \<Rightarrow> world \<Rightarrow> raised + string \<times> world" where
  \<comment> \<open>\<open>load_cv_text(cv_path) if cv_path else ""\<close>\<close>
  "cv_text_for cfg cv_path w =
     (if cv_path \<noteq> [] then load_cv_text cfg cv_path w else Inr ([], w))"

subsection \<open>\<open>get_answer_for_question\<close>\<close>

text \<open>
  The body of \<open>get_answer_for_question\<close> is one chain of tests, numbered in its comments.
  The model cuts the chain at these comments: \<open>answer_fixed_rules\<close> is steps 1 to 5d,
  \<open>answer_years\<close> step 6, \<open>answer_yes_no\<close> step 7, \<open>answer_years_late\<close> step 8,
  \<open>answer_rating\<close> step 8b, \<open>answer_open_ended\<close> step 9 and \<open>answer_default\<close> the last
  defaults. Each piece ends by calling the next one, as the source falls through.
  \<open>q\<close> is the label after \<open>question_label.strip()\<close>. The function catches nothing, so
  an exception of \<open>load_cv_text\<close> is its result (\<open>Inl\<close>).
\<close>

definition years_default_answer :: "string \<Rightarrow> string" where
  \<comment> \<open>\<open>try: return str(int(years_default)) except (TypeError, ValueError): return "3"\<close>\<close>
  "years_default_answer years_default =
     (case int_of_str years_default of Some n \<Rightarrow> str_of_int n | None \<Rightarrow> ''3'')"

definition answer_default :: "string \<Rightarrow> string \<Rightarrow> string" where
  "answer_default years_default q =
    (let label_lower = lower q in
     if any_in [''year'', ''experience'', ''how many''] label_lower
       then years_default_answer years_default
     else if any_in [''yes'', ''no'', ''experience with'', ''have you'', ''do you have''] label_lower
       then ''Yes''
     else if sublist ''number'' label_lower \<or> sublist ''salary'' label_lower
             \<or> sublist ''amount'' label_lower
       then ''1''
     else if length (strip q) < 40
             \<and> \<not> any_in [''describe'', ''explain'', ''why'', ''what'', ''comment''] label_lower
       then ''5.0''
     else ''N/A'')"

definition answer_open_ended ::
  "config \<Rightarrow> string \<Rightarrow> string \<Rightarrow> bool \<Rightarrow> string \<Rightarrow> world
     \<Rightarrow> raised + string option \<times> world" where
  "answer_open_ended cfg years_default cv_path use_gemini q w =
    (case cv_text_for cfg cv_path w of
       Inl e \<Rightarrow> Inl e
     | Inr (cv_text, w1) \<Rightarrow>
         if use_gemini
         then let (from_cv, w2) =
                    (if cv_text \<noteq> [] \<and> 50 \<le> length (strip cv_text)
                     then get_answer_from_cv_with_gemini cfg q cv_text 100 w1 else (None, w1))
              in (case from_cv of
                    Some a \<Rightarrow> Inr (Some a, w2)
                  | None \<Rightarrow>
                      (let (any_ans, w3) = get_answer_any_question_gemini cfg q 100 w2
                       in case any_ans of
                            Some a \<Rightarrow> Inr (Some a, w3)
                          | None \<Rightarrow> Inr (Some (answer_default years_default q), w3)))
         else Inr (Some (answer_default years_default q), w1))"

definition RATING_KEYWORDS :: "string list" where
  \<comment> \<open>\<open>rating_keywords\<close> of step 8b\<close>
  "RATING_KEYWORDS =
    [''frontend'', ''backend'', ''microservice'', ''microservices'', ''api'', ''database'',
     ''devops'', ''fullstack'', ''full-stack'', ''mobile'', ''cloud'', ''security'', ''testing'',
     ''data'']"

definition answer_rating ::
  "config \<Rightarrow> string \<Rightarrow> string \<Rightarrow> bool \<Rightarrow> string \<Rightarrow> world
     \<Rightarrow> raised + string option \<times> world" where
  "answer_rating cfg years_default cv_path use_gemini q w =
    (let label_clean = strip (lower (re_sub (Seq (re_plus (char_re CHR ''*'')) (Seq (Star ws) Eos))
                                           [] (strip q)))
     in if label_clean \<noteq> [] \<and> length label_clean < 50 \<and> any_in RATING_KEYWORDS label_clean
        then (if sublist ''frontend'' label_clean \<or> sublist ''backend'' label_clean
              then Inr (Some ''8.0'', w) else Inr (Some ''5.0'', w))
        else answer_open_ended cfg years_default cv_path use_gemini q w)"

definition answer_years_late ::
  "config \<Rightarrow> string \<Rightarrow> string \<Rightarrow> bool \<Rightarrow> string \<Rightarrow> world
     \<Rightarrow> raised + string option \<times> world" where
  "answer_years_late cfg years_default cv_path use_gemini q w =
    (case get_years_for_question q of
       Some years \<Rightarrow> Inr (Some (str_of_int years), w)
     | None \<Rightarrow>
         (case (if use_gemini \<and> cv_path \<noteq> []
                then (case load_cv_text cfg cv_path w of
                        Inl e \<Rightarrow> Inl e
                      | Inr (cv_text, w') \<Rightarrow>
                          Inr (if 50 \<le> length (strip cv_text)
                               then get_years_of_experience_from_cv cfg q cv_text w'
                               else (None, w')))
                else Inr (None, w)) of
            Inl e \<Rightarrow> Inl e
          | Inr (ai_years, w1) \<Rightarrow>
              (case ai_years of
                 Some a \<Rightarrow> Inr (Some a, w1)
               | None \<Rightarrow> answer_rating cfg years_default cv_path use_gemini q w1)))"

definition answer_yes_no ::
  "config \<Rightarrow> string \<Rightarrow> string \<Rightarrow> bool \<Rightarrow> string \<Rightarrow> world
     \<Rightarrow> raised + string option \<times> world" where
  "answer_yes_no cfg years_default cv_path use_gemini q w =
    (if is_yes_no_experience_question q
     then (case cv_text_for cfg cv_path w of
             Inl e \<Rightarrow> Inl e
           | Inr (cv_text, w1) \<Rightarrow>
               if \<not> skill_mentioned_in_cv q cv_text (EASY_APPLY_CERTIFICATIONS cfg)
               then Inr (Some ''No'', w1)
               else (case get_yes_no_for_experience q of
                       Some yes_no \<Rightarrow> Inr (Some yes_no, w1)
                     | None \<Rightarrow> answer_years_late cfg years_default cv_path use_gemini q w1))
     else answer_years_late cfg years_default cv_path use_gemini q w)"

definition YEARS_RATING_KEYWORDS :: "string list" where
  \<comment> \<open>the keywords that send a years question on to step 8b\<close>
  "YEARS_RATING_KEYWORDS =
    [''frontend'', ''backend'', ''microservice'', ''api'', ''database'', ''devops'', ''fullstack'',
     ''mobile'', ''cloud'', ''security'', ''testing'']"

definition answer_years ::
  "config \<Rightarrow> string \<Rightarrow> string \<Rightarrow> bool \<Rightarrow> string \<Rightarrow> world
     \<Rightarrow> raised + string option \<times> world" where
  "answer_years cfg years_default cv_path use_gemini q w =
    (let label_lower = lower q in
     if sublist ''years'' label_lower \<and> sublist ''experience'' label_lower
        \<and> \<not> any_in YEARS_RATING_KEYWORDS label_lower
     then (case cv_text_for cfg cv_path w of
             Inl e \<Rightarrow> Inl e
           | Inr (cv_text, w1) \<Rightarrow>
               if sublist ''how many'' label_lower
                  \<and> \<not> skill_mentioned_in_cv q cv_text (EASY_APPLY_CERTIFICATIONS cfg)
               then Inr (Some ''0'', w1)
               else (case get_years_for_question q of
                       Some years \<Rightarrow> Inr (Some (str_of_int years), w1)
                     | None \<Rightarrow>
                         (let (ai_years, w2) =
                                (if use_gemini \<and> cv_text \<noteq> [] \<and> 50 \<le> length (strip cv_text)
                                 then get_years_of_experience_from_cv cfg q cv_text w1
                                 else (None, w1))
                          in case ai_years of
                               Some a \<Rightarrow> Inr (Some a, w2)
                             | None \<Rightarrow> Inr (Some (years_default_answer years_default), w2))))
     else answer_yes_no cfg years_default cv_path use_gemini q w)"

definition HYBRID_KEYWORDS :: "string list" where
  "HYBRID_KEYWORDS =
    [''hybride'', ''hybrid'', ''remote'', ''t'' @ [CHR 0xE9] @ ''l'' @ [CHR 0xE9] @ ''travail'',
     ''telework'', ''work from home'', ''pr'' @ [CHR 0xE9] @ ''sence obligatoire'', ''on-site'',
     ''on site'', ''in-office'', ''work arrangement'', ''mode de travail'', ''work mode'']"

definition or_default :: "string \<Rightarrow> string \<Rightarrow> string" where
  \<comment> \<open>\<open>value or default\<close> on strings\<close>
  "or_default v d = (if v \<noteq> [] then v else d)"

definition answer_fixed_rules ::
  "config \<Rightarrow> string \<Rightarrow> string \<Rightarrow> world \<Rightarrow> raised + string option \<times> world" where
  "answer_fixed_rules cfg cv_path q w =
    (let label_lower = lower q in
     case get_work_authorization_answer cfg q of
       Some work_ans \<Rightarrow> Inr (Some work_ans, w)
     | None \<Rightarrow>
     if sublist ''legal status'' label_lower \<and> sublist ''canada'' label_lower
       then Inr (Some ''No status'', w)
     else if sublist ''location'' label_lower \<and> sublist ''city'' label_lower
             \<and> DEFAULT_LOCATION_CITY cfg \<noteq> []
       then Inr (Some (strip (DEFAULT_LOCATION_CITY cfg)), w)
     else if any_in [''first name'', ''pr'' @ [CHR 0xE9] @ ''nom'', ''prenom'', ''given name''] label_lower
             \<and> \<not> sublist ''last'' label_lower \<and> \<not> sublist ''nom de famille'' label_lower
       then (if EASY_APPLY_FIRST_NAME cfg \<noteq> []
             then Inr (Some (strip (EASY_APPLY_FIRST_NAME cfg)), w)
             else Inr (Some ''N/A'', w))
     else if any_in [''last name'', ''nom de famille'', ''family name'', ''surname''] label_lower
             \<or> strip label_lower = ''nom''
       then (if EASY_APPLY_LAST_NAME cfg \<noteq> []
             then Inr (Some (strip (EASY_APPLY_LAST_NAME cfg)), w)
             else Inr (Some ''N/A'', w))
     else if any_in HYBRID_KEYWORDS label_lower
       then (let raw = strip (or_default (EASY_APPLY_HYBRID_ANSWER cfg) ''Yes'')
             in if lower raw \<in> set [''no'', ''non'', ''0'', ''false''] then Inr (Some ''No'', w)
                else Inr (Some ''Yes'', w))
     else let (salary, w4) =
                (if sublist ''salary'' label_lower
                    \<and> (sublist ''expectation'' label_lower \<or> sublist ''expected'' label_lower
                         \<or> sublist ''compensation'' label_lower)
                 then let (s, w') = get_salary_expectation_gemini cfg w in (Some s, w')
                 else (None, w))
     in if truthy salary then Inr (salary, w4)
     else if sublist ''notice'' label_lower
             \<and> (sublist ''start'' label_lower \<or> sublist ''before'' label_lower
                  \<or> sublist ''joining'' label_lower)
       then Inr (Some (strip (or_default (NOTICE_PERIOD_DEFAULT cfg) ''3 months'')), w4)
     else if sublist ''current company'' label_lower
             \<or> (sublist ''company'' label_lower \<and> sublist ''current'' label_lower)
       then Inr (Some (strip (or_default (EASY_APPLY_CURRENT_COMPANY cfg) ''N/A'')), w4)
     else if sublist ''current title'' label_lower
             \<or> (sublist ''title'' label_lower \<and> sublist ''current'' label_lower)
       then Inr (Some (strip (or_default (EASY_APPLY_CURRENT_TITLE cfg) ''N/A'')), w4)
     else if sublist ''pronouns'' label_lower then Inr (Some ''Prefer not to say'', w4)
     else if any_in [''gender'', ''sexe'', ''sex '', ''male'', ''female'',
                     ''how do you describe your gender''] label_lower
       then (if EASY_APPLY_GENDER cfg \<noteq> [] then Inr (Some (strip (EASY_APPLY_GENDER cfg)), w4)
             else Inr (Some ''Male'', w4))
     else (case certification_question_and_name q of
             Some cert_name \<Rightarrow>
               (case cv_text_for cfg cv_path w4 of
                  Inl e \<Rightarrow> Inl e
                | Inr (cv_text, w5) \<Rightarrow>
                    if has_certification cert_name cv_text (EASY_APPLY_CERTIFICATIONS cfg)
                    then Inr (Some ''Yes'', w5) else Inr (Some ''No'', w5))
           | None \<Rightarrow> Inr (None, w4)))"

definition get_answer_for_question ::
  "config \<Rightarrow> string \<Rightarrow> string \<Rightarrow> string \<Rightarrow> bool \<Rightarrow> world
     \<Rightarrow> raised + string option \<times> world" where
  "get_answer_for_question cfg question_label years_default cv_path use_gemini w =
    (let q = strip question_label in
     if question_label = [] \<or> q = [] then Inr (None, w)
     else (case answer_fixed_rules cfg cv_path q w of
             Inl e \<Rightarrow> Inl e
           | Inr (Some a, w') \<Rightarrow> Inr (Some a, w')
           | Inr (None, w') \<Rightarrow> answer_years cfg years_default cv_path use_gemini q w'))"

section \<open>applier.py: the value written into a required text field\<close>

text \<open>
  Inside the loop over inputs of \<open>_fill_additional_questions\<close>, once the answer of the
  resolver is known, the value to write is computed in two stages: \<open>resolved_text_value\<close>
  (from \<open>answer\<close> to \<open>text_val\<close>, before the maximum length is read) and
  \<open>fit_to_max_length\<close> (the block that repeats the fallback text). Binary floating point is
  outside the model: the two places that go through \<open>float\<close> are the parameters
  \<open>float_below_tenth\<close> (\<open>float(s) < 0.1\<close>) and \<open>float_trunc\<close> (\<open>str(int(float(s)))\<close>,
  \<open>None\<close> when \<open>int\<close> raises). \<open>None\<close> as a result means that an exception left the
  block and the field is not filled.
\<close>

record float_ops =
  float_below_tenth :: "string \<Rightarrow> bool"
  float_trunc :: "string \<Rightarrow> string option"

definition TEXT_FALLBACK :: string where
  "TEXT_FALLBACK = ''none''"

definition RATING_LABELS :: "string list" where
  "RATING_LABELS =
    [''frontend'', ''backend'', ''microservice'', ''microservices'', ''api'', ''database'',
     ''devops'', ''fullstack'', ''mobile'', ''cloud'', ''security'', ''testing'', ''data'']"

definition DECIMAL_NUMBER :: regex where
  \<comment> \<open>\<open>r"^-?\d+(\.\d+)?$"\<close>, used with \<open>re.match\<close>\<close>
  "DECIMAL_NUMBER =
     seqs [re_opt (char_re CHR ''-''), re_plus (Atom is_digit),
           re_opt (Seq (char_re CHR ''.'') (re_plus (Atom is_digit))), Eos]"

definition rating_default :: "string \<Rightarrow> string" where
  \<comment> \<open>\<open>"8.0" if ("frontend" in label_lower or "backend" in label_lower) else "5.0"\<close>\<close>
  "rating_default label_lower =
     (if sublist ''frontend'' label_lower \<or> sublist ''backend'' label_lower then ''8.0'' else ''5.0'')"

definition resolved_text_value ::
  "float_ops \<Rightarrow> string \<Rightarrow> bool \<Rightarrow> string \<Rightarrow> string option \<Rightarrow> string option" where
  "resolved_text_value fl tag is_number label_str answer =
    (let label_lower = lower label_str;
         wants_decimal = any_in RATING_LABELS label_lower;
         wants_whole_number = ((sublist ''years'' label_lower \<and> sublist ''experience'' label_lower)
                               \<and> \<not> wants_decimal);
         answer1 = (if answer = None
                       \<or> (strip (the answer) \<in> set ['''', ''N/A''] \<and> tag \<noteq> ''input'' \<and> \<not> is_number)
                    then (if wants_decimal then rating_default label_lower
                          else if is_number then (if wants_whole_number then ''3'' else ''0'')
                          else TEXT_FALLBACK)
                    else the answer);
         text_val1 = strip answer1;
         text_val2 = (if text_val1 = [] \<and> \<not> is_number then TEXT_FALLBACK else text_val1);
         text_val3 =
           (if wants_decimal \<and> lower text_val2 \<in> set [''yes'', ''no'', ''oui'', ''non'', ''n/a'', '''']
              then rating_default label_lower
            else if wants_decimal \<and> \<not> re_match DECIMAL_NUMBER text_val2
              then rating_default label_lower
            else if wants_decimal \<and> re_match DECIMAL_NUMBER text_val2
              then (if float_below_tenth fl text_val2 then rating_default label_lower else text_val2)
            else text_val2)
     in if wants_whole_number \<and> re_match DECIMAL_NUMBER text_val3
        then float_trunc fl text_val3
        else Some text_val3)"

definition fit_to_max_length ::
  "string \<Rightarrow> bool \<Rightarrow> string option \<Rightarrow> nat option \<Rightarrow> string \<Rightarrow> string" where
  \<comment> \<open>\<open>maxlength\<close> is the attribute of the control, \<open>helper\<close> the largest number in its
      helper text; an exception inside the block leaves \<open>text_val\<close> as it is\<close>
  "fit_to_max_length tag is_number maxlength helper text_val =
    (if tag = ''textarea'' \<or> (tag = ''input'' \<and> \<not> is_number)
     then (case (if truthy maxlength then map_option Some (int_of_str (the maxlength))
                 else Some (map_option int helper)) of
             None \<Rightarrow> text_val
           | Some max_len \<Rightarrow>
               (case max_len of
                  None \<Rightarrow> text_val
                | Some m \<Rightarrow>
                    if m \<noteq> 0 \<and> int (length text_val) < m \<and> lower text_val = TEXT_FALLBACK
                    then take (nat m)
                           (concat (replicate (nat (m div (int (length TEXT_FALLBACK) + 1) + 1))
                                              (TEXT_FALLBACK @ '' '')))
                    else text_val))
     else text_val)"

definition input_fill_value ::
  "float_ops \<Rightarrow> string \<Rightarrow> bool \<Rightarrow> string \<Rightarrow> string option \<Rightarrow> string option \<Rightarrow> nat option
     \<Rightarrow> string option" where
  \<comment> \<open>the argument of \<open>inp.fill\<close>\<close>
  "input_fill_value fl tag is_number label_str answer maxlength helper =
     map_option (fit_to_max_length tag is_number maxlength helper)
                (resolved_text_value fl tag is_number label_str answer)"

section \<open>daily\_limit.py and main.py\<close>

datatype page_eval = EvalRaises | EvalText string

definition DAILY_LIMIT_PHRASES :: "string list" where
  "DAILY_LIMIT_PHRASES =
    [''envois quotidiens'', ''limitons le nombre'', ''postulez demain'', ''enregistrez cette offre'']"

definition page_has_daily_limit_message :: "page_eval \<Rightarrow> bool" where
  \<comment> \<open>the argument is what \<open>page.evaluate\<close> gives: the lowercased text of the page, or an
      exception\<close>
  "page_has_daily_limit_message e =
    (case e of
       EvalRaises \<Rightarrow> False
     | EvalText text \<Rightarrow> if text = [] then False else any_in DAILY_LIMIT_PHRASES text)"

text \<open>
  \<open>main\<close> drives a browser. The model runs it against a script of what the browser
  shows: for each round of the \<open>while True\<close> loop whether a stop was requested, the jobs
  found, and for each job the result of every awaited call of the loop body. Of these
  calls only \<open>fill_contact_and_click_suivant\<close> lets an exception out; the other helpers
  (\<open>select_job_at_index\<close>, \<open>click_easy_apply_selected\<close>, \<open>close_easy_apply_modal\<close>,
  \<open>wait_for_easy_apply_modal_closed\<close>, \<open>show_daily_limit_popup\<close>, \<open>close_context\<close>,
  \<open>get_job_list_count\<close>, \<open>scroll_job_list\<close>) catch their own. \<open>KeyboardInterrupt\<close> and task
  cancellation are not modelled. The effects on the outside are kept as a trace of events.
  A script that ends before \<open>main\<close> returns gives \<open>StillRunning\<close>.
\<close>

record run_state =
  running :: bool
  applied_count :: nat
  error :: "string option"

datatype event =
    LogDailyLimit        \<comment> \<open>\<open>logger.info("LinkedIn daily limit detected; stopping.")\<close>\<close>
  | ShowPopup            \<comment> \<open>\<open>show_daily_limit_popup()\<close>\<close>
  | CloseModal           \<comment> \<open>\<open>close_easy_apply_modal(page)\<close>\<close>
  | LogApplied nat       \<comment> \<open>\<open>logger.info("Applied to job (total %s).", applied_total)\<close>\<close>
  | CloseContext         \<comment> \<open>\<open>close_context(context)\<close>\<close>

datatype fill_result = FillReturns bool | FillRaises

record job_obs =
  selected :: bool                 \<comment> \<open>\<open>select_job_at_index(page, i)\<close>\<close>
  page_after_select :: page_eval
  clicked :: bool                  \<comment> \<open>\<open>click_easy_apply_selected(page)\<close>\<close>
  page_after_click :: page_eval
  fill :: fill_result              \<comment> \<open>\<open>fill_contact_and_click_suivant(page)\<close>\<close>
  page_after_fill :: page_eval
  stop_after :: bool               \<comment> \<open>\<open>stop_event and stop_event.is_set()\<close> after the job\<close>

record round_obs =
  stop_at_top :: bool
  jobs :: "job_obs list"           \<comment> \<open>one entry per index of \<open>range(count)\<close>\<close>
  stop_after_jobs :: bool

record startup =
  context_error :: "string option" \<comment> \<open>an exception while the browser context is set up\<close>
  navigated :: bool                \<comment> \<open>\<open>navigate_to_job_search(page)\<close>\<close>

record loop_state =
  applied_total :: nat
  state :: "run_state option"
  trace :: "event list"

datatype job_exit = NextJob | BreakLoop | Return int

definition emit :: "event list \<Rightarrow> loop_state \<Rightarrow> loop_state" where
  "emit es l = l\<lparr>trace := trace l @ es\<rparr>"

definition after_job :: "job_obs \<Rightarrow> job_exit" where
  \<comment> \<open>the end of the loop body: wait for the modal to close, sleep, test the stop event\<close>
  "after_job ob = (if stop_after ob then BreakLoop else NextJob)"

definition job_body :: "job_obs \<Rightarrow> loop_state \<Rightarrow> loop_state \<times> job_exit" where
  "job_body ob l =
    (if \<not> selected ob then (l, NextJob)
     else if page_has_daily_limit_message (page_after_select ob)
       then (emit [LogDailyLimit, ShowPopup] l, Return 0)
     else if \<not> clicked ob then (emit [CloseModal] l, NextJob)
     else if page_has_daily_limit_message (page_after_click ob)
       then (emit [LogDailyLimit, CloseModal, ShowPopup] l, Return 0)
     else (case fill ob of
             FillRaises \<Rightarrow> (emit [CloseModal] l, after_job ob)
           | FillReturns applied \<Rightarrow>
               if page_has_daily_limit_message (page_after_fill ob)
                 then (emit [LogDailyLimit, CloseModal, ShowPopup] l, Return 0)
               else if applied
                 then (let n = applied_total l + 1
                       in (emit [LogApplied n]
                             (l\<lparr>applied_total := n,
                                state := map_option (\<lambda>s. s\<lparr>applied_count := n\<rparr>) (state l)\<rparr>),
                           after_job ob))
               else (emit [CloseModal] l, after_job ob)))"

fun jobs_loop :: "job_obs list \<Rightarrow> loop_state \<Rightarrow> loop_state \<times> job_exit" where
  \<comment> \<open>\<open>for i in range(count)\<close>; \<open>NextJob\<close> as a result means the list is exhausted\<close>
  "jobs_loop [] l = (l, NextJob)"
| "jobs_loop (ob # obs) l =
     (case job_body ob l of
        (l', NextJob) \<Rightarrow> jobs_loop obs l'
      | (l', ex) \<Rightarrow> (l', ex))"

datatype outcome =
    Returned int "run_state option" "event list"
  | StillRunning "run_state option" "event list"

definition finish :: "int \<Rightarrow> loop_state \<Rightarrow> outcome" where
  \<comment> \<open>leaving the two \<open>try\<close> blocks: \<open>close_context\<close>, then \<open>state["running"] = False\<close>\<close>
  "finish code l =
     Returned code (map_option (\<lambda>s. s\<lparr>running := False\<rparr>) (state l)) (trace l @ [CloseContext])"

fun rounds_loop :: "round_obs list \<Rightarrow> loop_state \<Rightarrow> outcome" where
  \<comment> \<open>\<open>while True\<close>\<close>
  "rounds_loop [] l = StillRunning (state l) (trace l)"
| "rounds_loop (r # rs) l =
     (if stop_at_top r then finish 0 l
      else if jobs r = [] then rounds_loop rs l
      else (case jobs_loop (jobs r) l of
              (l', Return code) \<Rightarrow> finish code l'
            | (l', _) \<Rightarrow> if stop_after_jobs r then finish 0 l' else rounds_loop rs l'))"

definition main :: "startup \<Rightarrow> round_obs list \<Rightarrow> run_state option \<Rightarrow> outcome" where
  "main su rounds st =
    (let st0 = map_option (\<lambda>s. s\<lparr>running := True, applied_count := 0, error := None\<rparr>) st in
     case context_error su of
       Some msg \<Rightarrow> Returned 1 (map_option (\<lambda>s. s\<lparr>error := Some msg, running := False\<rparr>) st0) []
     | None \<Rightarrow>
         if \<not> navigated su then finish 1 \<lparr>applied_total = 0, state = st0, trace = []\<rparr>
         else rounds_loop rounds \<lparr>applied_total = 0, state = st0, trace = []\<rparr>)"

section \<open>Inputs and read-outs used in the worked examples\<close>


definition empty_world :: world where
  \<comment> \<open>no file, no reply from either service, nothing cached\<close>
  "empty_world = \<lparr> cv_cache = None, pdf_files = (\<lambda>_. NoFile), gemini_replies = [],
                   groq_replies = [] \<rparr>"

definition world_with_cv :: "page list \<Rightarrow> world" where
  \<comment> \<open>every path holds a PDF with these pages\<close>
  "world_with_cv ps = \<lparr> cv_cache = None, pdf_files = (\<lambda>_. Pages ps), gemini_replies = [],
                        groq_replies = [] \<rparr>"

definition gemini_config :: config where
  \<comment> \<open>the defaults, with a key for each completion service\<close>
  "gemini_config = default_config\<lparr>GEMINI_API_KEY := ''key'', GROQ_API_KEY := ''key''\<rparr>"

definition unused_floats :: float_ops where
  \<comment> \<open>for examples whose values never reach a \<open>float\<close>\<close>
  "unused_floats = \<lparr> float_below_tenth = (\<lambda>_. False), float_trunc = (\<lambda>_. None) \<rparr>"

fun trace_of :: "outcome \<Rightarrow> event list" where
  "trace_of (Returned code st es) = es"
| "trace_of (StillRunning st es) = es"

fun is_applied :: "event \<Rightarrow> bool" where
  "is_applied (LogApplied n) = True"
| "is_applied _ = False"

definition loop_invariant :: "run_state option \<Rightarrow> loop_state \<Rightarrow> bool" where
  \<comment> \<open>what holds of the loop state of \<open>main\<close> called with \<open>st\<close>, as long as no daily limit
      was seen\<close>
  "loop_invariant st l =
    (LogDailyLimit \<notin> set (trace l)
     \<and> applied_total l = length (filter is_applied (trace l))
     \<and> (state l = None \<longleftrightarrow> st = None)
     \<and> (\<forall>s. state l = Some s \<longrightarrow> error s = None \<and> applied_count s = applied_total l))"

definition stopped_on_limit :: "loop_state \<Rightarrow> loop_state \<Rightarrow> bool" where
  \<comment> \<open>\<open>l'\<close> is \<open>l\<close> after a job that saw the daily limit\<close>
  "stopped_on_limit l l' =
    (\<exists>after. trace l' = trace l @ LogDailyLimit # after
       \<and> ShowPopup \<in> set after \<and> (\<forall>n. LogApplied n \<notin> set after)
       \<and> state l' = state l)"

definition applied_job :: job_obs where
  \<comment> \<open>a job that is selected, opened, filled and applied to, with no limit message\<close>
  "applied_job = \<lparr> selected = True, page_after_select = EvalText ''offres'', clicked = True,
                   page_after_click = EvalText ''candidature'', fill = FillReturns True,
                   page_after_fill = EvalText ''envoy'', stop_after = False \<rparr>"

definition limit_job :: job_obs where
  \<comment> \<open>a job that shows the daily limit once the apply button is clicked\<close>
  "limit_job = applied_job
     \<lparr>page_after_click := EvalText ''nous limitons le nombre d envois quotidiens''\<rparr>"

definition limit_round :: round_obs where
  "limit_round = \<lparr> stop_at_top = False, jobs = [applied_job, limit_job, applied_job],
                    stop_after_jobs = False \<rparr>"

definition limit_reported :: "job_obs \<Rightarrow> bool" where
  \<comment> \<open>one of the three checks the loop body makes on this job reports true; the body
      makes the first check once the job is selected, the second once the apply button
      is clicked, the third once the form filling has returned\<close>
  "limit_reported ob =
    (selected ob
     \<and> (page_has_daily_limit_message (page_after_select ob)
          \<or> (clicked ob
              \<and> (page_has_daily_limit_message (page_after_click ob)
                   \<or> (fill ob \<noteq> FillRaises
                       \<and> page_has_daily_limit_message (page_after_fill ob))))))"

definition quiet_job :: "job_obs \<Rightarrow> bool" where
  \<comment> \<open>no check reports true on this job and the loop goes on to the next job\<close>
  "quiet_job ob = (\<not> limit_reported ob \<and> \<not> (selected ob \<and> clicked ob \<and> stop_after ob))"

definition quiet_round :: "round_obs \<Rightarrow> bool" where
  \<comment> \<open>a round without a stop request whose jobs are all quiet\<close>
  "quiet_round r =
    (\<not> stop_at_top r \<and> (jobs r = [] \<or> (list_all quiet_job (jobs r) \<and> \<not> stop_after_jobs r)))"

definition java_cv_world :: world where
  \<comment> \<open>every path holds a one-page CV that names Java and Docker\<close>
  "java_cv_world = world_with_cv [PageText (Some ''Java and Docker developer'')]"

definition settings_filled :: "config \<Rightarrow> bool" where
  \<comment> \<open>the two work authorization answers are not empty, and every other text setting the
      resolver returns is empty (so that its default applies) or not blank\<close>
  "settings_filled cfg =
    (WORK_AUTHORIZATION_ANSWER cfg \<noteq> [] \<and> WORK_NEED_SPONSORSHIP_ANSWER cfg \<noteq> []
     \<and> list_all (\<lambda>v. v = [] \<or> strip v \<noteq> [])
          [DEFAULT_LOCATION_CITY cfg, EASY_APPLY_FIRST_NAME cfg, EASY_APPLY_LAST_NAME cfg,
           NOTICE_PERIOD_DEFAULT cfg, EASY_APPLY_CURRENT_COMPANY cfg,
           EASY_APPLY_CURRENT_TITLE cfg, EASY_APPLY_GENDER cfg])"

definition answer_of :: "raised + 'a \<times> world \<Rightarrow> raised + 'a" where
  \<comment> \<open>the result without the world\<close>
  "answer_of r = (case r of Inl e \<Rightarrow> Inl e | Inr (a, w) \<Rightarrow> Inr a)"

definition answered :: "raised + string option \<times> world \<Rightarrow> bool" where
  \<comment> \<open>an exception, or a text that is not the empty one\<close>
  "answered r =
     (case r of Inl e \<Rightarrow> True | Inr (a, w) \<Rightarrow> (case a of None \<Rightarrow> False | Some t \<Rightarrow> t \<noteq> []))"

definition no_empty_answer :: "raised + string option \<times> world \<Rightarrow> bool" where
  \<comment> \<open>an exception, no answer, or a text that is not the empty one\<close>
  "no_empty_answer r =
     (case r of Inl e \<Rightarrow> True | Inr (a, w) \<Rightarrow> (case a of None \<Rightarrow> True | Some t \<Rightarrow> t \<noteq> []))"

definition falls_through :: "world \<Rightarrow> raised + string option \<times> world \<Rightarrow> bool" where
  \<comment> \<open>a result without an answer leaves the world as it was\<close>
  "falls_through w r = (case r of Inr (None, w') \<Rightarrow> w' = w | _ \<Rightarrow> True)"

definition exists_never_raises :: "world \<Rightarrow> bool" where
  \<comment> \<open>the existence test succeeds or fails quietly on every path\<close>
  "exists_never_raises w = (\<forall>p. pdf_files w p \<noteq> ExistsRaises)"

definition returns_with_files :: "world \<Rightarrow> raised + 'a \<times> world \<Rightarrow> bool" where
  \<comment> \<open>a result that is no exception and leaves the files of \<open>w\<close> as they are\<close>
  "returns_with_files w r = (case r of Inl e \<Rightarrow> False | Inr (a, w') \<Rightarrow> pdf_files w' = pdf_files w)"

section \<open>Properties of the experience table\<close>



lemma get_years_range:
  "get_years_for_question l = Some n \<Longrightarrow> n = 2 \<or> n = 3 \<or> n = 4"
  by (auto simp: get_years_for_question_def Let_def YEARS_JAVA_CORE_def YEARS_PRIMARY_def
      YEARS_OTHER_def TOTAL_YEARS_DEFAULT_def split: if_splits)

text \<open>
  C3. A label whose normalized text reads "how many", then anything, then "years", then
  anything, is never a Yes/No experience question, whatever else it says.
\<close>

theorem how_many_years_is_not_yes_no:
  assumes "normalize_label question_label = a @ ''how many'' @ b @ ''years'' @ c"
  shows "is_yes_no_experience_question question_label = False"
proof -
  have many: "sublist ''how many'' (normalize_label question_label)"
    unfolding assms sublist_def by blast
  have "normalize_label question_label = (a @ ''how many'' @ b) @ ''years'' @ c"
    using assms by simp
  then have years: "sublist ''years'' (normalize_label question_label)"
    unfolding sublist_def by blast
  show ?thesis
    using many years by (simp add: is_yes_no_experience_question_def Let_def)
qed

theorem how_many_years_is_not_yes_no_witness:
  "normalize_label ''Do you have experience with Java?  How many   YEARS?''
     = ''do you have experience with java? '' @ ''how many'' @ '' '' @ ''years'' @ ''?''
   \<and> list_ex (\<lambda>pat. re_search pat (normalize_label ''Do you have experience with Java?  How many   YEARS?''))
        YES_NO_EXPERIENCE_PATTERNS
   \<and> is_yes_no_experience_question ''Do you have experience with Java?  How many   YEARS?'' = False"
proof -
  have n: "normalize_label ''Do you have experience with Java?  How many   YEARS?''
     = ''do you have experience with java? '' @ ''how many'' @ '' '' @ ''years'' @ ''?''"
    by code_simp
  have p: "list_ex (\<lambda>pat. re_search pat (normalize_label ''Do you have experience with Java?  How many   YEARS?''))
        YES_NO_EXPERIENCE_PATTERNS"
    by code_simp
  from n p how_many_years_is_not_yes_no [OF n] show ?thesis by blast
qed




text \<open>
  C10. \<open>get_yes_no_for_experience\<close> gives \<open>None\<close> for a label that is not classified as a
  Yes/No experience question and "Yes" for one that is; it never gives "No".
\<close>

theorem get_yes_no_for_experience_never_no:
  "get_yes_no_for_experience question_label =
     (if is_yes_no_experience_question question_label then Some ''Yes'' else None)
   \<and> get_yes_no_for_experience question_label \<noteq> Some ''No''"
  using get_years_range [of question_label]
  by (auto simp: get_yes_no_for_experience_def Let_def YEARS_OTHER_def split: option.splits)

theorem get_yes_no_for_experience_never_no_witness:
  "is_yes_no_experience_question ''Do you have experience with Kubernetes?''
   \<and> get_yes_no_for_experience ''Do you have experience with Kubernetes?'' = Some ''Yes''
   \<and> \<not> is_yes_no_experience_question ''How many years of experience with Kubernetes?''
   \<and> get_yes_no_for_experience ''How many years of experience with Kubernetes?'' = None"
proof -
  have y: "is_yes_no_experience_question ''Do you have experience with Kubernetes?''"
    by code_simp
  have n: "\<not> is_yes_no_experience_question ''How many years of experience with Kubernetes?''"
    by code_simp
  from y n
    get_yes_no_for_experience_never_no [of "''Do you have experience with Kubernetes?''"]
    get_yes_no_for_experience_never_no [of "''How many years of experience with Kubernetes?''"]
  show ?thesis by simp
qed

section \<open>Properties of the CV text cache\<close>

lemma load_cv_text_cached:
  "cv_cache w = Some text \<Longrightarrow> load_cv_text cfg cv_path w = Inr (text, w)"
  by (simp add: load_cv_text_def)

lemma load_cv_text_replies:
  "load_cv_text cfg cv_path w = Inr (cv_text, w') \<Longrightarrow>
   gemini_replies w' = gemini_replies w \<and> groq_replies w' = groq_replies w"
  by (auto simp: load_cv_text_def Let_def split: option.splits pdf_read.splits if_splits)

lemma cv_text_for_replies:
  "cv_text_for cfg cv_path w = Inr (cv_text, w') \<Longrightarrow>
   gemini_replies w' = gemini_replies w \<and> groq_replies w' = groq_replies w"
  by (auto simp: cv_text_for_def split: if_splits dest: load_cv_text_replies)

text \<open>
  C9. Once a call of \<open>load_cv_text\<close> has extracted the text of the PDF (the file exists,
  the reader is installed, no page fails), the text is in the cache, and every later call
  returns that same text and leaves the world as it is, whatever path it is given,
  whatever the files have become and whatever the configuration: the PDF is not read
  again.
\<close>

theorem load_cv_text_idempotent:
  assumes "cv_cache w = None" and "cv_path \<noteq> []" and "pypdf_installed cfg"
    and "pdf_files w cv_path = Pages ps" and "PageRaises \<notin> set ps"
  shows "\<exists>text. load_cv_text cfg cv_path w = Inr (text, w\<lparr>cv_cache := Some text\<rparr>)
           \<and> (\<forall>cfg' cv_path' w'. cv_cache w' = Some text
                  \<longrightarrow> load_cv_text cfg' cv_path' w' = Inr (text, w'))"
  using assms by (simp add: load_cv_text_def Let_def)

theorem load_cv_text_idempotent_witness:
  "load_cv_text default_config ''cv.pdf'' (world_with_cv [PageText (Some ''Java''), PageText None])
     = Inr (''Java'' @ [CHR 0x0A], (world_with_cv [PageText (Some ''Java''), PageText None])
                                 \<lparr>cv_cache := Some (''Java'' @ [CHR 0x0A])\<rparr>)
   \<and> load_cv_text default_config ''other.pdf''
        ((world_with_cv [PageRaises])\<lparr>cv_cache := Some (''Java'' @ [CHR 0x0A])\<rparr>)
     = Inr (''Java'' @ [CHR 0x0A], (world_with_cv [PageRaises])\<lparr>cv_cache := Some (''Java'' @ [CHR 0x0A])\<rparr>)"
proof -
  let ?w = "world_with_cv [PageText (Some ''Java''), PageText None]"
  have a: "cv_cache ?w = None" "''cv.pdf'' \<noteq> []" "pypdf_installed default_config"
    "pdf_files ?w ''cv.pdf'' = Pages [PageText (Some ''Java''), PageText None]"
    "PageRaises \<notin> set [PageText (Some ''Java''), PageText None]"
    by (simp_all add: world_with_cv_def default_config_def)
  have first: "load_cv_text default_config ''cv.pdf'' ?w
                 = Inr (''Java'' @ [CHR 0x0A], ?w\<lparr>cv_cache := Some (''Java'' @ [CHR 0x0A])\<rparr>)"
    by (simp add: load_cv_text_def world_with_cv_def default_config_def page_text_def Let_def)
  from load_cv_text_idempotent [OF a] first
  have "\<forall>cfg' cv_path' w'. cv_cache w' = Some (''Java'' @ [CHR 0x0A])
          \<longrightarrow> load_cv_text cfg' cv_path' w' = Inr (''Java'' @ [CHR 0x0A], w')"
    by auto
  then have "load_cv_text default_config ''other.pdf''
        ((world_with_cv [PageRaises])\<lparr>cv_cache := Some (''Java'' @ [CHR 0x0A])\<rparr>)
     = Inr (''Java'' @ [CHR 0x0A], (world_with_cv [PageRaises])\<lparr>cv_cache := Some (''Java'' @ [CHR 0x0A])\<rparr>)"
    by simp
  with first show ?thesis by simp
qed

section \<open>Properties of the option picker\<close>

lemma find_in_set: "find P xs = Some x \<Longrightarrow> x \<in> set xs"
  by (induction xs) (auto split: if_splits)

lemma get_answer_from_options_cases:
  "fst (get_answer_from_options cfg question options w) =
     (case filter (\<lambda>o'. o' \<noteq> []) (map strip options) of
        [] \<Rightarrow> None
      | first # rest \<Rightarrow>
          (case fst (complete cfg w) of
             None \<Rightarrow> Some first
           | Some t \<Rightarrow>
               if t = [] then Some first
               else (case find (option_matches (strip_chars QUOTES (strip t))) (first # rest) of
                       Some o' \<Rightarrow> Some o'
                     | None \<Rightarrow> Some first)))"
proof (cases "filter (\<lambda>o'. o' \<noteq> []) (map strip options)")
  case Nil
  then show ?thesis by (simp add: get_answer_from_options_def)
next
  case (Cons first rest)
  obtain reply w' where c: "complete cfg w = (reply, w')" by (cases "complete cfg w")
  show ?thesis
    unfolding get_answer_from_options_def Let_def Cons c
    by (simp split: option.splits)
qed

lemma find_first:
  "find P xs = Some x \<Longrightarrow> \<exists>i < length xs. x = xs ! i \<and> P (xs ! i) \<and> (\<forall>j < i. \<not> P (xs ! j))"
  by (auto simp: find_Some_iff)

lemma find_none: "find P xs = None \<Longrightarrow> \<forall>x \<in> set xs. \<not> P x"
  by (simp add: find_None_iff)

lemma filter_strip_clean:
  assumes "\<forall>o' \<in> set options. strip o' = o'"
  shows "filter (\<lambda>o'. o' \<noteq> []) (map strip options) = filter (\<lambda>o'. o' \<noteq> []) options"
proof -
  from assms have "map strip options = options" by (simp add: map_idI)
  then show ?thesis by simp
qed

text \<open>
  C6, as the code has it. The result is \<open>None\<close> exactly when every option is blank (empty
  or whitespace only). For options that carry no surrounding whitespace, which is what
  the caller passes, the result is an element of the supplied list, namely: the first
  non-empty option when the providers yield no text; otherwise, with the completion
  stripped of whitespace and quotes, the first non-empty option that equals it, contains
  it or is contained in it, letter case ignored; and the first non-empty option when no
  option matches.
\<close>

theorem get_answer_from_options_pick:
  "(fst (get_answer_from_options cfg question options w) = None
      \<longleftrightarrow> (\<forall>o' \<in> set options. strip o' = []))
   \<and> ((\<forall>o' \<in> set options. strip o' = o') \<longrightarrow>
        (let opts = filter (\<lambda>o'. o' \<noteq> []) options;
             reply = fst (complete cfg w);
             chosen = strip_chars QUOTES (strip (the reply));
             matches = (\<lambda>o'. lower o' = lower chosen \<or> sublist (lower chosen) (lower o')
                              \<or> sublist (lower o') (lower chosen));
             result = fst (get_answer_from_options cfg question options w)
         in (\<forall>r. result = Some r \<longrightarrow> r \<in> set options)
          \<and> (opts \<noteq> [] \<and> \<not> truthy reply \<longrightarrow> result = Some (hd opts))
          \<and> (opts \<noteq> [] \<and> truthy reply \<and> (\<exists>o' \<in> set opts. matches o') \<longrightarrow>
                (\<exists>i < length opts. result = Some (opts ! i) \<and> matches (opts ! i)
                                   \<and> (\<forall>j < i. \<not> matches (opts ! j))))
          \<and> (opts \<noteq> [] \<and> truthy reply \<and> \<not> (\<exists>o' \<in> set opts. matches o') \<longrightarrow>
                result = Some (hd opts))))"
proof (intro conjI impI)
  show "fst (get_answer_from_options cfg question options w) = None
          \<longleftrightarrow> (\<forall>o' \<in> set options. strip o' = [])"
  proof -
    have "fst (get_answer_from_options cfg question options w) = None
            \<longleftrightarrow> filter (\<lambda>o'. o' \<noteq> []) (map strip options) = []"
      unfolding get_answer_from_options_cases
      by (simp split: list.splits option.splits)
    also have "\<dots> \<longleftrightarrow> (\<forall>o' \<in> set options. strip o' = [])"
      by (auto simp: filter_empty_conv)
    finally show ?thesis .
  qed
next
  assume clean: "\<forall>o' \<in> set options. strip o' = o'"
  let ?opts = "filter (\<lambda>o'. o' \<noteq> []) options"
  let ?reply = "fst (complete cfg w)"
  let ?chosen = "strip_chars QUOTES (strip (the ?reply))"
  let ?matches = "\<lambda>o'. lower o' = lower ?chosen \<or> sublist (lower ?chosen) (lower o')
                        \<or> sublist (lower o') (lower ?chosen)"
  let ?result = "fst (get_answer_from_options cfg question options w)"
  have m: "option_matches ?chosen = ?matches"
    by (rule ext) (simp add: option_matches_def)
  have cases: "?result =
     (case ?opts of
        [] \<Rightarrow> None
      | first # rest \<Rightarrow>
          if \<not> truthy ?reply then Some first
          else (case find ?matches ?opts of Some o' \<Rightarrow> Some o' | None \<Rightarrow> Some first))"
    unfolding get_answer_from_options_cases filter_strip_clean [OF clean] m [symmetric]
    by (auto simp: truthy_def split: list.splits option.splits)
  have mem: "\<forall>r. ?result = Some r \<longrightarrow> r \<in> set options"
  proof (intro allI impI)
    fix r assume "?result = Some r"
    then have "r \<in> set ?opts"
      unfolding cases
      by (cases ?opts) (auto split: if_splits option.splits dest: find_in_set)
    then show "r \<in> set options" by simp
  qed
  have no_text: "?opts \<noteq> [] \<and> \<not> truthy ?reply \<longrightarrow> ?result = Some (hd ?opts)"
    unfolding cases by (cases ?opts) auto
  have first_match: "?opts \<noteq> [] \<and> truthy ?reply \<and> (\<exists>o' \<in> set ?opts. ?matches o') \<longrightarrow>
      (\<exists>i < length ?opts. ?result = Some (?opts ! i) \<and> ?matches (?opts ! i)
                          \<and> (\<forall>j < i. \<not> ?matches (?opts ! j)))"
  proof
    assume a: "?opts \<noteq> [] \<and> truthy ?reply \<and> (\<exists>o' \<in> set ?opts. ?matches o')"
    then obtain x where x: "find ?matches ?opts = Some x"
      by (cases "find ?matches ?opts") (auto dest: find_none)
    from a x have "?result = Some x" unfolding cases by (cases ?opts) auto
    with find_first [OF x] show "\<exists>i < length ?opts. ?result = Some (?opts ! i)
        \<and> ?matches (?opts ! i) \<and> (\<forall>j < i. \<not> ?matches (?opts ! j))"
      by auto
  qed
  have no_match: "?opts \<noteq> [] \<and> truthy ?reply \<and> \<not> (\<exists>o' \<in> set ?opts. ?matches o') \<longrightarrow>
      ?result = Some (hd ?opts)"
  proof
    assume a: "?opts \<noteq> [] \<and> truthy ?reply \<and> \<not> (\<exists>o' \<in> set ?opts. ?matches o')"
    then have "find ?matches ?opts = None" by (simp add: find_None_iff)
    with a show "?result = Some (hd ?opts)" unfolding cases by (cases ?opts) auto
  qed
  show "let opts = ?opts; reply = ?reply; chosen = strip_chars QUOTES (strip (the reply));
            matches = (\<lambda>o'. lower o' = lower chosen \<or> sublist (lower chosen) (lower o')
                             \<or> sublist (lower o') (lower chosen));
            result = ?result
        in (\<forall>r. result = Some r \<longrightarrow> r \<in> set options)
         \<and> (opts \<noteq> [] \<and> \<not> truthy reply \<longrightarrow> result = Some (hd opts))
         \<and> (opts \<noteq> [] \<and> truthy reply \<and> (\<exists>o' \<in> set opts. matches o') \<longrightarrow>
               (\<exists>i < length opts. result = Some (opts ! i) \<and> matches (opts ! i)
                                  \<and> (\<forall>j < i. \<not> matches (opts ! j))))
         \<and> (opts \<noteq> [] \<and> truthy reply \<and> \<not> (\<exists>o' \<in> set opts. matches o') \<longrightarrow>
               result = Some (hd opts))"
    unfolding Let_def using mem no_text first_match no_match by blast
qed

theorem get_answer_from_options_pick_witness:
  "fst (get_answer_from_options gemini_config ''Work mode?'' [''Remote'', ''Hybrid'', ''Hybrid or remote'']
          (empty_world\<lparr>gemini_replies := [GeminiResponse (Some ''hybrid'')]\<rparr>)) = Some ''Hybrid''
   \<and> fst (get_answer_from_options gemini_config ''Work mode?'' [''Remote'', ''Hybrid'', ''Hybrid or remote'']
          (empty_world\<lparr>gemini_replies := [GeminiResponse (Some ''office'')]\<rparr>)) = Some ''Remote''
   \<and> fst (get_answer_from_options gemini_config ''Work mode?'' [''Remote'', ''Hybrid'', ''Hybrid or remote'']
          (empty_world\<lparr>gemini_replies := [GeminiRaises ''503'']\<rparr>)) = Some ''Remote''
   \<and> fst (get_answer_from_options gemini_config ''Work mode?'' [[], ''  ''] empty_world) = None"
proof -
  let ?os = "[''Remote'', ''Hybrid'', ''Hybrid or remote'']"
  let ?w1 = "empty_world\<lparr>gemini_replies := [GeminiResponse (Some ''hybrid'')]\<rparr>"
  let ?w2 = "empty_world\<lparr>gemini_replies := [GeminiResponse (Some ''office'')]\<rparr>"
  let ?w3 = "empty_world\<lparr>gemini_replies := [GeminiRaises ''503'']\<rparr>"
  have clean: "\<forall>o' \<in> set ?os. strip o' = o'"
    unfolding Ball_set by code_simp
  have blank: "\<forall>o' \<in> set [[], ''  '']. strip o' = []"
    unfolding Ball_set by code_simp
  have opts: "filter (\<lambda>o'. o' \<noteq> []) ?os = ?os" by simp
  have r1: "fst (complete gemini_config ?w1) = Some ''hybrid''" by code_simp
  have r2: "fst (complete gemini_config ?w2) = Some ''office''" by code_simp
  have r3: "\<not> truthy (fst (complete gemini_config ?w3))" by code_simp
  have c1: "strip_chars QUOTES (strip ''hybrid'') = ''hybrid''" by code_simp
  have c2: "strip_chars QUOTES (strip ''office'') = ''office''" by code_simp
  have m1: "list_all (\<lambda>o'. (lower o' = lower ''hybrid'' \<or> sublist (lower ''hybrid'') (lower o')
                             \<or> sublist (lower o') (lower ''hybrid'')) = (o' \<noteq> ''Remote'')) ?os"
    by code_simp
  have m2: "list_all (\<lambda>o'. \<not> (lower o' = lower ''office'' \<or> sublist (lower ''office'') (lower o')
                               \<or> sublist (lower o') (lower ''office''))) ?os"
    by code_simp
  have v1: "fst (get_answer_from_options gemini_config ''Work mode?'' ?os ?w1) = Some ''Hybrid''"
  proof -
    let ?m = "\<lambda>o'. lower o' = lower ''hybrid'' \<or> sublist (lower ''hybrid'') (lower o')
                    \<or> sublist (lower o') (lower ''hybrid'')"
    let ?r = "fst (get_answer_from_options gemini_config ''Work mode?'' ?os ?w1)"
    have mR: "\<not> ?m ''Remote''" by code_simp
    have mH: "?m ''Hybrid''" by code_simp
    note T = get_answer_from_options_pick [of gemini_config "''Work mode?''" ?os ?w1,
        THEN conjunct2, THEN mp, OF clean, unfolded Let_def r1 option.sel c1 opts]
    have prem: "?os \<noteq> [] \<and> truthy (Some ''hybrid'') \<and> (\<exists>o' \<in> set ?os. ?m o')"
      using mH by (simp add: truthy_def)
    from T [THEN conjunct2, THEN conjunct2, THEN conjunct1, THEN mp, OF prem]
    obtain i where i: "i < length ?os" "?r = Some (?os ! i)" "?m (?os ! i)"
      "\<forall>j < i. \<not> ?m (?os ! j)"
      by blast
    from i(1) have "i = 0 \<or> i = 1 \<or> i = 2" by auto
    then show ?thesis
    proof (elim disjE)
      assume "i = 0"
      with i(3) mR show ?thesis by simp
    next
      assume "i = 1"
      with i(2) show ?thesis by simp
    next
      assume "i = 2"
      with i(4) have "(1::nat) < 2 \<longrightarrow> \<not> ?m (?os ! 1)" by blast
      then have "\<not> ?m ''Hybrid''" by simp
      with mH show ?thesis by blast
    qed
  qed
  have v2: "fst (get_answer_from_options gemini_config ''Work mode?'' ?os ?w2) = Some ''Remote''"
    using get_answer_from_options_pick [of gemini_config "''Work mode?''" ?os ?w2] clean m2
    by (simp add: Let_def r2 c2 truthy_def)
  have v3: "fst (get_answer_from_options gemini_config ''Work mode?'' ?os ?w3) = Some ''Remote''"
    using get_answer_from_options_pick [of gemini_config "''Work mode?''" ?os ?w3] clean r3
    by (simp add: Let_def)
  have v4: "fst (get_answer_from_options gemini_config ''Work mode?'' [[], ''  ''] empty_world) = None"
    using get_answer_from_options_pick [of gemini_config "''Work mode?''" "[[], ''  '']" empty_world]
      blank by blast
  from v1 v2 v3 v4 show ?thesis by blast
qed

text \<open>
  The claim as it was stated fails on a list that is not empty and holds only a blank
  option.
\<close>

theorem get_answer_from_options_blank_counterexample:
  "[''  ''] \<noteq> []
   \<and> fst (get_answer_from_options gemini_config ''Work mode?'' [''  ''] empty_world) = None"
  by code_simp

section \<open>Properties of the value written into a text field\<close>

lemma fallback_repeated_length:
  assumes "int (length TEXT_FALLBACK) < m"
  shows "length (take (nat m)
                  (concat (replicate (nat (m div (int (length TEXT_FALLBACK) + 1) + 1))
                                     (TEXT_FALLBACK @ '' '')))) = nat m"
proof -
  have len: "length TEXT_FALLBACK = 4" by (simp add: TEXT_FALLBACK_def)
  have "length (concat (replicate k (TEXT_FALLBACK @ '' ''))) = 5 * k" for k
    by (induction k) (simp_all add: len)
  moreover have "nat m \<le> 5 * nat (m div 5 + 1)" using assms len by (simp add: nat_le_iff)
  ultimately show ?thesis by (simp add: len)
qed

text \<open>
  C7. When the value computed for a textarea (or a text input that is not a number field)
  is the fallback text "none", and the control has a maximum length of 50 (as its
  \<open>maxlength\<close> attribute, or read off its helper text when there is no attribute), the value
  written is "none " repeated and cut to exactly 50 characters.
\<close>

theorem fallback_fills_max_length:
  assumes "resolved_text_value fl tag is_number label_str answer = Some TEXT_FALLBACK"
    and "tag = ''textarea'' \<or> (tag = ''input'' \<and> \<not> is_number)"
    and "maxlength = Some ''50'' \<or> (\<not> truthy maxlength \<and> helper = Some 50)"
  shows "\<exists>v. input_fill_value fl tag is_number label_str answer maxlength helper = Some v
           \<and> v = take 50 (concat (replicate 11 ''none ''))
           \<and> length v = 50"
proof -
  have parse: "int_of_str ''50'' = Some 50" by code_simp
  have low: "lower TEXT_FALLBACK = TEXT_FALLBACK" by code_simp
  have len: "length TEXT_FALLBACK = 4" by (simp add: TEXT_FALLBACK_def)
  have max50: "(if truthy maxlength then map_option Some (int_of_str (the maxlength))
                else Some (map_option int helper)) = Some (Some 50)"
    using assms(3) parse by (auto simp: truthy_def)
  have fit: "fit_to_max_length tag is_number maxlength helper TEXT_FALLBACK
               = take 50 (concat (replicate 11 (TEXT_FALLBACK @ '' '')))"
    using assms(2) unfolding fit_to_max_length_def max50 by (simp add: low len)
  have l50: "length (take 50 (concat (replicate 11 (TEXT_FALLBACK @ '' '')))) = 50"
    using fallback_repeated_length [of 50] by (simp add: len)
  show ?thesis
    using fit l50 assms(1) by (simp add: input_fill_value_def TEXT_FALLBACK_def)
qed

theorem fallback_fills_max_length_witness:
  "answer_of (get_answer_for_question default_config [] ''3'' [] True empty_world) = Inr None
   \<and> resolved_text_value unused_floats ''input'' False [] None = Some TEXT_FALLBACK
   \<and> resolved_text_value unused_floats ''textarea'' False ''Cover letter'' (Some ''N/A'')
       = Some TEXT_FALLBACK
   \<and> input_fill_value unused_floats ''input'' False [] None (Some ''50'') None
       = Some ''none none none none none none none none none none ''
   \<and> input_fill_value unused_floats ''textarea'' False ''Cover letter'' (Some ''N/A'') None (Some 50)
       = Some ''none none none none none none none none none none ''"
proof -
  have a: "answer_of (get_answer_for_question default_config [] ''3'' [] True empty_world) = Inr None"
    by (simp add: get_answer_for_question_def answer_of_def)
  have r1: "resolved_text_value unused_floats ''input'' False [] None = Some TEXT_FALLBACK"
    by code_simp
  have r2: "resolved_text_value unused_floats ''textarea'' False ''Cover letter'' (Some ''N/A'')
              = Some TEXT_FALLBACK"
    by code_simp
  have t: "take 50 (concat (replicate 11 ''none ''))
             = ''none none none none none none none none none none ''"
    by code_simp
  have v1: "input_fill_value unused_floats ''input'' False [] None (Some ''50'') None
              = Some ''none none none none none none none none none none ''"
    using fallback_fills_max_length [OF r1, of "Some ''50''" None] t by (simp add: truthy_def)
  have v2: "input_fill_value unused_floats ''textarea'' False ''Cover letter'' (Some ''N/A'') None (Some 50)
              = Some ''none none none none none none none none none none ''"
    using fallback_fills_max_length [OF r2, of None "Some 50"] t by (simp add: truthy_def)
  from a r1 r2 v1 v2 show ?thesis by blast
qed

section \<open>Properties of the run loop\<close>

lemma job_body_limit:
  assumes "loop_invariant st l" and "job_body ob l = (l', ex)"
  shows "(ex = Return 0 \<and> stopped_on_limit l l')
         \<or> ((ex = NextJob \<or> ex = BreakLoop) \<and> loop_invariant st l')"
  using assms
  by (auto simp: job_body_def after_job_def emit_def loop_invariant_def stopped_on_limit_def Let_def
      split: if_splits fill_result.splits)

lemma jobs_loop_limit:
  assumes "loop_invariant st l" and "jobs_loop obs l = (l', ex)"
  shows "(ex = Return 0 \<and> (\<exists>l0. loop_invariant st l0 \<and> stopped_on_limit l0 l'))
         \<or> ((ex = NextJob \<or> ex = BreakLoop) \<and> loop_invariant st l')"
  using assms
proof (induction obs arbitrary: l)
  case Nil
  then show ?case by simp
next
  case (Cons ob obs)
  obtain l1 ex1 where b: "job_body ob l = (l1, ex1)" by (cases "job_body ob l")
  from job_body_limit [OF Cons.prems(1) b]
  show ?case
  proof
    assume "ex1 = Return 0 \<and> stopped_on_limit l l1"
    with Cons.prems b show ?thesis by auto
  next
    assume c: "(ex1 = NextJob \<or> ex1 = BreakLoop) \<and> loop_invariant st l1"
    show ?thesis
    proof (cases "ex1 = NextJob")
      case True
      with Cons.prems(2) b have "jobs_loop obs l1 = (l', ex)" by simp
      with Cons.IH c show ?thesis by blast
    next
      case False
      with c Cons.prems(2) b show ?thesis by auto
    qed
  qed
qed

lemma finish_trace: "trace_of (finish code l) = trace l @ [CloseContext]"
  by (simp add: finish_def)

lemma rounds_loop_limit:
  assumes "loop_invariant st l" and "LogDailyLimit \<in> set (trace_of (rounds_loop rounds l))"
  shows "\<exists>l0 l'. loop_invariant st l0 \<and> stopped_on_limit l0 l' \<and> rounds_loop rounds l = finish 0 l'"
  using assms
proof (induction rounds arbitrary: l)
  case Nil
  then show ?case by (simp add: loop_invariant_def)
next
  case (Cons r rounds)
  show ?case
  proof (cases "stop_at_top r")
    case True
    with Cons.prems show ?thesis by (simp add: finish_trace loop_invariant_def)
  next
    case top: False
    show ?thesis
    proof (cases "jobs r = []")
      case True
      with top Cons show ?thesis by simp
    next
      case nonempty: False
      obtain l1 ex where j: "jobs_loop (jobs r) l = (l1, ex)" by (cases "jobs_loop (jobs r) l")
      from jobs_loop_limit [OF Cons.prems(1) j]
      show ?thesis
      proof
        assume "ex = Return 0 \<and> (\<exists>l0. loop_invariant st l0 \<and> stopped_on_limit l0 l1)"
        with top nonempty j show ?thesis by auto
      next
        assume c: "(ex = NextJob \<or> ex = BreakLoop) \<and> loop_invariant st l1"
        show ?thesis
        proof (cases "stop_after_jobs r")
          case True
          with c top nonempty j Cons.prems(2) have False
            by (auto simp: finish_trace loop_invariant_def)
          then show ?thesis ..
        next
          case False
          with c top nonempty j have "rounds_loop (r # rounds) l = rounds_loop rounds l1"
            by auto
          with Cons.IH [of l1] c Cons.prems(2) show ?thesis by simp
        qed
      qed
    qed
  qed
qed

lemma limit_logged_stops_cleanly:
  assumes "LogDailyLimit \<in> set (trace_of (main su rounds st))"
  shows "\<exists>st' before after.
           main su rounds st = Returned 0 st' (before @ LogDailyLimit # after)
           \<and> LogDailyLimit \<notin> set before
           \<and> ShowPopup \<in> set after
           \<and> (\<forall>n. LogApplied n \<notin> set after)
           \<and> (st' = None \<longleftrightarrow> st = None)
           \<and> (\<forall>s. st' = Some s \<longrightarrow>
                  error s = None \<and> \<not> running s
                  \<and> applied_count s = length (filter is_applied before))"
proof -
  let ?st0 = "map_option (\<lambda>s. s\<lparr>running := True, applied_count := 0, error := None\<rparr>) st"
  let ?l = "\<lparr>applied_total = 0, state = ?st0, trace = []\<rparr>"
  have inv: "loop_invariant st ?l" by (auto simp: loop_invariant_def)
  have ce: "context_error su = None"
    using assms by (cases "context_error su") (simp_all add: main_def Let_def)
  have nav: "navigated su"
    using assms ce by (cases "navigated su") (simp_all add: main_def Let_def finish_def)
  from ce nav have m: "main su rounds st = rounds_loop rounds ?l"
    by (simp add: main_def Let_def)
  with assms have "LogDailyLimit \<in> set (trace_of (rounds_loop rounds ?l))" by simp
  from rounds_loop_limit [OF inv this]
  obtain l0 l' where l0: "loop_invariant st l0" and s: "stopped_on_limit l0 l'"
    and r: "rounds_loop rounds ?l = finish 0 l'" by blast
  from s obtain after where a: "trace l' = trace l0 @ LogDailyLimit # after"
    "ShowPopup \<in> set after" "\<forall>n. LogApplied n \<notin> set after" "state l' = state l0"
    by (auto simp: stopped_on_limit_def)
  have ret: "main su rounds st
               = Returned 0 (map_option (\<lambda>s. s\<lparr>running := False\<rparr>) (state l0))
                   (trace l0 @ LogDailyLimit # (after @ [CloseContext]))"
    using m r a by (simp add: finish_def)
  show ?thesis
  proof (intro exI conjI)
    show "main su rounds st
            = Returned 0 (map_option (\<lambda>s. s\<lparr>running := False\<rparr>) (state l0))
                (trace l0 @ LogDailyLimit # (after @ [CloseContext]))"
      by (rule ret)
    show "LogDailyLimit \<notin> set (trace l0)" using l0 by (simp add: loop_invariant_def)
    show "ShowPopup \<in> set (after @ [CloseContext])" using a(2) by simp
    show "\<forall>n. LogApplied n \<notin> set (after @ [CloseContext])" using a(3) by simp
    show "(map_option (\<lambda>s. s\<lparr>running := False\<rparr>) (state l0) = None) = (st = None)"
      using l0 by (simp add: loop_invariant_def)
    show "\<forall>s. map_option (\<lambda>s. s\<lparr>running := False\<rparr>) (state l0) = Some s \<longrightarrow>
              error s = None \<and> \<not> running s
              \<and> applied_count s = length (filter is_applied (trace l0))"
      using l0 by (auto simp: loop_invariant_def)
  qed
qed

lemma job_body_quiet: "quiet_job ob \<Longrightarrow> snd (job_body ob l) = NextJob"
  by (auto simp: quiet_job_def limit_reported_def job_body_def after_job_def Let_def
      split: fill_result.splits)

lemma job_body_reported:
  "limit_reported ob \<Longrightarrow>
   snd (job_body ob l) = Return 0 \<and> LogDailyLimit \<in> set (trace (fst (job_body ob l)))"
  by (auto simp: limit_reported_def job_body_def emit_def split: fill_result.splits)

lemma jobs_loop_reported:
  assumes "list_all quiet_job js" and "limit_reported ob"
  shows "snd (jobs_loop (js @ ob # js') l) = Return 0
         \<and> LogDailyLimit \<in> set (trace (fst (jobs_loop (js @ ob # js') l)))"
  using assms(1)
proof (induction js arbitrary: l)
  case Nil
  obtain l1 ex where b: "job_body ob l = (l1, ex)" by (cases "job_body ob l")
  with job_body_reported [OF assms(2), of l] show ?case by simp
next
  case (Cons j js)
  obtain l1 ex where b: "job_body j l = (l1, ex)" by (cases "job_body j l")
  from Cons.prems have "quiet_job j" by simp
  from job_body_quiet [OF this, of l] b have "ex = NextJob" by simp
  with b Cons show ?case by simp
qed

lemma jobs_loop_quiet: "list_all quiet_job js \<Longrightarrow> snd (jobs_loop js l) = NextJob"
proof (induction js arbitrary: l)
  case Nil
  then show ?case by simp
next
  case (Cons j js)
  obtain l1 ex where b: "job_body j l = (l1, ex)" by (cases "job_body j l")
  from Cons.prems have "quiet_job j" by simp
  from job_body_quiet [OF this, of l] b have "ex = NextJob" by simp
  with b Cons show ?case by simp
qed

lemma rounds_loop_quiet:
  "list_all quiet_round before \<Longrightarrow> \<exists>l'. rounds_loop (before @ rs) l = rounds_loop rs l'"
proof (induction before arbitrary: l)
  case Nil
  then show ?case by auto
next
  case (Cons r before)
  from Cons.prems have q: "quiet_round r" and rest: "list_all quiet_round before" by simp_all
  show ?case
  proof (cases "jobs r = []")
    case True
    with q Cons.IH [OF rest, of l] show ?thesis by (simp add: quiet_round_def)
  next
    case False
    obtain l1 ex where j: "jobs_loop (jobs r) l = (l1, ex)" by (cases "jobs_loop (jobs r) l")
    from q False have "list_all quiet_job (jobs r)" and ns: "\<not> stop_after_jobs r"
      and nt: "\<not> stop_at_top r"
      by (simp_all add: quiet_round_def)
    from jobs_loop_quiet [OF this(1), of l] j have "ex = NextJob" by simp
    with j False ns nt have "rounds_loop ((r # before) @ rs) l = rounds_loop (before @ rs) l1"
      by simp
    with Cons.IH [OF rest, of l1] show ?thesis by simp
  qed
qed

lemma rounds_loop_reported:
  assumes "\<not> stop_at_top r" and "jobs r = js @ ob # js'" and "list_all quiet_job js"
    and "limit_reported ob"
  shows "LogDailyLimit \<in> set (trace_of (rounds_loop (r # rest) l))"
proof -
  obtain l1 ex where j: "jobs_loop (jobs r) l = (l1, ex)" by (cases "jobs_loop (jobs r) l")
  from jobs_loop_reported [OF assms(3,4), of js' l] j assms(2)
  have "ex = Return 0" and "LogDailyLimit \<in> set (trace l1)" by simp_all
  with j assms(1,2) show ?thesis by (simp add: finish_trace)
qed

text \<open>
  C8. Take a run that gets as far as a job on which the daily-limit check reports true:
  the browser starts and the search page loads, the rounds and jobs before that job pass
  without a stop request and without a limit message, and on that job one of the three
  checks of the loop body reports true. Then \<open>main\<close> returns 0. No application is made
  after the detection, the popup is shown, and in the shared state, when there is one,
  \<open>error\<close> is unset, \<open>running\<close> is cleared and \<open>applied_count\<close> is the number of
  applications made before the detection.
\<close>

theorem daily_limit_stops_cleanly:
  assumes "context_error su = None" and "navigated su"
    and "rounds = before @ r # rest" and "list_all quiet_round before"
    and "\<not> stop_at_top r" and "jobs r = js @ ob # js'" and "list_all quiet_job js"
    and "limit_reported ob"
  shows "\<exists>st' pre post.
           main su rounds st = Returned 0 st' (pre @ LogDailyLimit # post)
           \<and> LogDailyLimit \<notin> set pre
           \<and> ShowPopup \<in> set post
           \<and> (\<forall>n. LogApplied n \<notin> set post)
           \<and> (st' = None \<longleftrightarrow> st = None)
           \<and> (\<forall>s. st' = Some s \<longrightarrow>
                  error s = None \<and> \<not> running s
                  \<and> applied_count s = length (filter is_applied pre))"
proof -
  let ?st0 = "map_option (\<lambda>s. s\<lparr>running := True, applied_count := 0, error := None\<rparr>) st"
  let ?l = "\<lparr>applied_total = 0, state = ?st0, trace = []\<rparr>"
  from assms(1,2) have m: "main su rounds st = rounds_loop rounds ?l"
    by (simp add: main_def Let_def)
  from rounds_loop_quiet [OF assms(4), of "r # rest" ?l] assms(3)
  obtain l' where "rounds_loop rounds ?l = rounds_loop (r # rest) l'" by auto
  with rounds_loop_reported [OF assms(5-8), of rest l'] m
  have "LogDailyLimit \<in> set (trace_of (main su rounds st))" by simp
  then show ?thesis by (rule limit_logged_stops_cleanly)
qed

theorem daily_limit_stops_cleanly_witness:
  "page_has_daily_limit_message (page_after_click limit_job)
   \<and> limit_reported limit_job
   \<and> quiet_job applied_job
   \<and> main \<lparr>context_error = None, navigated = True\<rparr> [limit_round]
          (Some \<lparr>running = False, applied_count = 7, error = Some ''previous run failed''\<rparr>)
       = Returned 0 (Some \<lparr>running = False, applied_count = 1, error = None\<rparr>)
           [LogApplied 1, LogDailyLimit, CloseModal, ShowPopup, CloseContext]"
proof -
  let ?su = "\<lparr>context_error = None, navigated = True\<rparr>"
  let ?st = "Some \<lparr>running = False, applied_count = 7, error = Some ''previous run failed''\<rparr>"
  have p: "page_has_daily_limit_message (page_after_click limit_job)" by code_simp
  have lr: "limit_reported limit_job" by code_simp
  have q: "quiet_job applied_job" by code_simp
  have shape: "[limit_round] = [] @ limit_round # []" "list_all quiet_round []"
    "\<not> stop_at_top limit_round" "jobs limit_round = [applied_job] @ limit_job # [applied_job]"
    "list_all quiet_job [applied_job]"
    using q by (simp_all add: limit_round_def)
  have m: "main ?su [limit_round] ?st
             = Returned 0 (Some \<lparr>running = False, applied_count = 1, error = None\<rparr>)
                 [LogApplied 1, LogDailyLimit, CloseModal, ShowPopup, CloseContext]"
    by code_simp
  from daily_limit_stops_cleanly [of ?su "[limit_round]" "[]" limit_round "[]" "[applied_job]"
         limit_job "[applied_job]" ?st, OF _ _ shape lr]
  obtain st' pre post where
    "main ?su [limit_round] ?st = Returned 0 st' (pre @ LogDailyLimit # post)" by auto
  with p lr q m show ?thesis by simp
qed

section \<open>Properties of the answer resolver\<close>

subsection \<open>Stripping and lowercasing\<close>

lemma isspace_lower_char: "isspace (lower_char c) = isspace c"
  by (auto simp: isspace_def lower_char_def Let_def)

lemma lstrip_lower: "lstrip (lower s) = lower (lstrip s)"
proof -
  have "isspace \<circ> lower_char = isspace" by (rule ext) (simp add: isspace_lower_char)
  then show ?thesis by (simp add: lstrip_def lower_def dropWhile_map)
qed

lemma rstrip_lower: "rstrip (lower s) = lower (rstrip s)"
proof -
  have "isspace \<circ> lower_char = isspace" by (rule ext) (simp add: isspace_lower_char)
  then show ?thesis by (simp add: rstrip_def lower_def dropWhile_map rev_map)
qed

lemma strip_lower: "strip (lower s) = lower (strip s)"
  by (simp add: strip_def lstrip_lower rstrip_lower)

lemma rstrip_rstrip: "rstrip (rstrip s) = rstrip s"
  by (simp add: rstrip_def)

lemma lstrip_rstrip_lstrip: "lstrip (rstrip (lstrip s)) = rstrip (lstrip s)"
proof (cases "rstrip (lstrip s) = []")
  case True
  then show ?thesis by (simp add: lstrip_def)
next
  case False
  let ?t = "lstrip s"
  have split: "?t = rstrip ?t @ rev (takeWhile isspace (rev ?t))"
  proof -
    have "takeWhile isspace (rev ?t) @ dropWhile isspace (rev ?t) = rev ?t"
      by (rule takeWhile_dropWhile_id)
    then have "rev (takeWhile isspace (rev ?t) @ dropWhile isspace (rev ?t)) = rev (rev ?t)"
      by (rule arg_cong)
    then have "rev (dropWhile isspace (rev ?t)) @ rev (takeWhile isspace (rev ?t)) = ?t"
      by (simp only: rev_append rev_rev_ident)
    then show ?thesis unfolding rstrip_def by (rule sym)
  qed
  from False split have ne: "?t \<noteq> []" by auto
  from False split have "hd ?t = hd (rstrip ?t)" by (metis hd_append2)
  moreover from ne have "\<not> isspace (hd ?t)" unfolding lstrip_def by (rule hd_dropWhile)
  ultimately have "\<not> isspace (hd (rstrip ?t))" by simp
  with False show ?thesis by (cases "rstrip ?t") (simp_all add: lstrip_def)
qed

lemma strip_strip: "strip (strip s) = strip s"
  by (simp add: strip_def lstrip_rstrip_lstrip rstrip_rstrip)

lemma strip_Nil: "strip [] = []"
  by (simp add: strip_def lstrip_def rstrip_def)

lemma normalize_strip: "normalize (strip s) = normalize s"
  by (simp add: normalize_def strip_lower [symmetric] strip_strip)

lemma normalize_Nil: "normalize [] = []"
  by (simp add: normalize_def lower_def strip_Nil)

subsection \<open>Work authorization before every other rule\<close>

lemma sponsorship_rule_Nil: "\<not> sponsorship_rule []"
  by code_simp

lemma work_auth_patterns_Nil: "\<not> list_ex (\<lambda>pat. re_search pat []) WORK_AUTH_PATTERNS"
  by code_simp

lemma work_subject_Nil: "\<not> work_subject []"
  by code_simp

lemma is_work_authorization_question_blank:
  "strip question_label = [] \<Longrightarrow> \<not> is_work_authorization_question cfg question_label"
proof -
  assume "strip question_label = []"
  then have "normalize question_label = []"
    using normalize_strip [of question_label] by (simp add: normalize_Nil)
  then show ?thesis
    using work_auth_patterns_Nil work_subject_Nil
    by (simp add: is_work_authorization_question_def Let_def list_ex_iff)
qed

lemma is_work_authorization_question_strip:
  "strip question_label \<noteq> [] \<Longrightarrow>
   is_work_authorization_question cfg (strip question_label)
     = is_work_authorization_question cfg question_label"
  by (auto simp: is_work_authorization_question_def normalize_strip strip_Nil)

lemma answer_fixed_rules_work:
  "get_work_authorization_answer cfg q = Some a \<Longrightarrow> answer_fixed_rules cfg cv_path q w = Inr (Some a, w)"
  by (simp add: answer_fixed_rules_def Let_def)

text \<open>
  C1, as the code has it. A label that triggers one of the sponsorship rules gets the
  configured needs-sponsorship value. A label that triggers none of them and is a work
  authorization question (a pattern of citizenship, residency or right to work, or a
  country named together with work, authorized, citizen or resid) gets the configured
  not-authorized value. Both answers are given before any other rule: they depend on
  nothing but the label and the two settings, no completion service is called and the CV
  is not read (the world is returned unchanged).
\<close>

theorem work_authorization_first:
  "(sponsorship_rule (normalize question_label) \<longrightarrow>
      get_answer_for_question cfg question_label years_default cv_path use_gemini w
        = Inr (Some (WORK_NEED_SPONSORSHIP_ANSWER cfg), w))
   \<and> (\<not> sponsorship_rule (normalize question_label)
        \<and> is_work_authorization_question cfg question_label \<longrightarrow>
      get_answer_for_question cfg question_label years_default cv_path use_gemini w
        = Inr (Some (WORK_AUTHORIZATION_ANSWER cfg), w))"
proof (intro conjI impI)
  assume s: "sponsorship_rule (normalize question_label)"
  have ne: "strip question_label \<noteq> []"
  proof
    assume "strip question_label = []"
    then have "normalize question_label = []"
      using normalize_strip [of question_label] by (simp add: normalize_Nil)
    with s sponsorship_rule_Nil show False by simp
  qed
  then have ne': "question_label \<noteq> []" by (auto simp: strip_Nil)
  from s ne have "get_work_authorization_answer cfg (strip question_label)
                    = Some (WORK_NEED_SPONSORSHIP_ANSWER cfg)"
    by (simp add: get_work_authorization_answer_def normalize_strip)
  from answer_fixed_rules_work [OF this] ne ne'
  show "get_answer_for_question cfg question_label years_default cv_path use_gemini w
          = Inr (Some (WORK_NEED_SPONSORSHIP_ANSWER cfg), w)"
    by (simp add: get_answer_for_question_def Let_def)
next
  assume a: "\<not> sponsorship_rule (normalize question_label)
             \<and> is_work_authorization_question cfg question_label"
  have ne: "strip question_label \<noteq> []"
    using a is_work_authorization_question_blank by blast
  then have ne': "question_label \<noteq> []" by (auto simp: strip_Nil)
  from a ne have "get_work_authorization_answer cfg (strip question_label)
                    = Some (WORK_AUTHORIZATION_ANSWER cfg)"
    by (simp add: get_work_authorization_answer_def normalize_strip
        is_work_authorization_question_strip)
  from answer_fixed_rules_work [OF this] ne ne'
  show "get_answer_for_question cfg question_label years_default cv_path use_gemini w
          = Inr (Some (WORK_AUTHORIZATION_ANSWER cfg), w)"
    by (simp add: get_answer_for_question_def Let_def)
qed

theorem work_authorization_first_witness:
  "sponsorship_rule (normalize ''Will you now or in the future require sponsorship?'')
   \<and> answer_of (get_answer_for_question default_config
             ''Will you now or in the future require sponsorship?'' ''3'' ''cv.pdf'' True
             (world_with_cv [PageText (Some ''I am a citizen of Canada'')])) = Inr (Some ''Yes'')
   \<and> \<not> sponsorship_rule (normalize ''Do you have experience and are you authorized to work in Canada?'')
   \<and> is_work_authorization_question default_config
        ''Do you have experience and are you authorized to work in Canada?''
   \<and> is_yes_no_experience_question ''Do you have experience and are you authorized to work in Canada?''
   \<and> answer_of (get_answer_for_question default_config
             ''Do you have experience and are you authorized to work in Canada?'' ''3'' ''cv.pdf'' True
             (world_with_cv [PageText (Some ''I am a citizen of Canada'')])) = Inr (Some ''No'')"
proof -
  let ?w = "world_with_cv [PageText (Some ''I am a citizen of Canada'')]"
  have s: "sponsorship_rule (normalize ''Will you now or in the future require sponsorship?'')"
    by code_simp
  have n: "\<not> sponsorship_rule (normalize ''Do you have experience and are you authorized to work in Canada?'')"
    by code_simp
  have q: "is_work_authorization_question default_config
             ''Do you have experience and are you authorized to work in Canada?''"
    by code_simp
  have y: "is_yes_no_experience_question ''Do you have experience and are you authorized to work in Canada?''"
    by code_simp
  have c: "WORK_NEED_SPONSORSHIP_ANSWER default_config = ''Yes''"
    "WORK_AUTHORIZATION_ANSWER default_config = ''No''"
    by (simp_all add: default_config_def)
  from s n q y c
    work_authorization_first [of "''Will you now or in the future require sponsorship?''"
      default_config "''3''" "''cv.pdf''" True ?w]
    work_authorization_first [of "''Do you have experience and are you authorized to work in Canada?''"
      default_config "''3''" "''cv.pdf''" True ?w]
  show ?thesis by (simp add: answer_of_def)
qed

text \<open>
  The claim as it was stated fails where the two kinds of phrasing meet: the label below
  matches the authorization pattern \<open>work (permit|authorization|visa)\<close> and is a work
  authorization question, and the answer is the needs-sponsorship value.
\<close>

theorem authorization_phrasing_counterexample:
  "re_search (seqs [lit ''work '', alts [''permit'', ''authorization'', ''visa'']])
      (normalize ''Will you require sponsorship for a work visa?'')
   \<and> is_work_authorization_question default_config ''Will you require sponsorship for a work visa?''
   \<and> WORK_AUTHORIZATION_ANSWER default_config = ''No''
   \<and> answer_of (get_answer_for_question default_config ''Will you require sponsorship for a work visa?''
             ''3'' [] True empty_world) = Inr (Some ''Yes'')"
  by code_simp

subsection \<open>A skill that is in neither the CV nor the credential list\<close>

lemma skill_not_mentioned:
  assumes "extract_skill_phrases_from_question q \<noteq> []"
    and "\<forall>ph \<in> set (extract_skill_phrases_from_question q).
           \<not> phrase_in_config_list certs ph \<and> \<not> phrase_in_cv cv_text ph"
  shows "\<not> skill_mentioned_in_cv q cv_text certs"
  using assms by (simp add: skill_mentioned_in_cv_def Let_def list_ex_iff)

lemma salary_nonempty: "fst (get_salary_expectation_gemini cfg w) \<noteq> []"
  by (auto simp: get_salary_expectation_gemini_def Let_def isdigit_str_def
      split: prod.splits option.splits)

lemma falls_through_if:
  "(c \<Longrightarrow> falls_through w x) \<Longrightarrow> (\<not> c \<Longrightarrow> falls_through w y)
     \<Longrightarrow> falls_through w (if c then x else y)"
  by simp

lemma falls_through_case_prod:
  "(\<And>a b. p = (a, b) \<Longrightarrow> falls_through w (f a b))
     \<Longrightarrow> falls_through w (case p of (a, b) \<Rightarrow> f a b)"
  by (cases p) simp

lemma falls_through_case_option:
  "falls_through w n \<Longrightarrow> (\<And>x. falls_through w (s x))
     \<Longrightarrow> falls_through w (case v of None \<Rightarrow> n | Some x \<Rightarrow> s x)"
  by (cases v) simp_all

lemma falls_through_case_sum:
  "(\<And>e. falls_through w (f e)) \<Longrightarrow> (\<And>x. falls_through w (g x))
     \<Longrightarrow> falls_through w (case r of Inl e \<Rightarrow> f e | Inr x \<Rightarrow> g x)"
  by (cases r) simp_all

lemma salary_step_world:
  assumes "(if c then case get_salary_expectation_gemini cfg w of (s, w') \<Rightarrow> (Some s, w')
            else (None, w)) = (salary, w4)"
    and "\<not> truthy salary"
  shows "w4 = w"
proof (cases c)
  case True
  obtain s w' where g: "get_salary_expectation_gemini cfg w = (s, w')"
    by (cases "get_salary_expectation_gemini cfg w")
  with salary_nonempty [of cfg w] have "s \<noteq> []" by simp
  with True g assms show ?thesis by (auto simp: truthy_def)
next
  case False
  with assms show ?thesis by simp
qed

lemma falls_through_truthy: "truthy salary \<Longrightarrow> falls_through w (Inr (salary, w4))"
  by (cases salary) (simp_all add: falls_through_def truthy_def)

lemma fixed_rules_falls_through: "falls_through w (answer_fixed_rules cfg cv_path q w)"
  unfolding answer_fixed_rules_def Let_def
  by (intro falls_through_if falls_through_case_prod falls_through_case_option
        falls_through_case_sum;
      (erule falls_through_truthy)?; (simp add: falls_through_def)?;
      (drule (1) salary_step_world)?; simp?)

lemma fixed_rules_none:
  assumes "answer_of (answer_fixed_rules cfg cv_path q w) = Inr None"
  shows "answer_fixed_rules cfg cv_path q w = Inr (None, w)"
proof -
  from assms obtain w' where r: "answer_fixed_rules cfg cv_path q w = Inr (None, w')"
    by (auto simp: answer_of_def split: sum.splits prod.splits)
  with fixed_rules_falls_through [of w cfg cv_path q] show ?thesis
    by (simp add: falls_through_def)
qed

lemma get_answer_for_question_falls_through:
  assumes "strip question_label \<noteq> []"
    and "answer_of (answer_fixed_rules cfg cv_path (strip question_label) w) = Inr None"
  shows "get_answer_for_question cfg question_label years_default cv_path use_gemini w
           = answer_years cfg years_default cv_path use_gemini (strip question_label) w"
proof -
  from assms(1) have "question_label \<noteq> []" by (auto simp: strip_Nil)
  with assms(1) fixed_rules_none [OF assms(2)] show ?thesis
    by (simp add: get_answer_for_question_def Let_def)
qed

text \<open>
  C5, as the code has it. Take a label that no earlier rule of the chain answers (steps 1
  to 5d), a CV whose text can be looked up (the existence test of its path does not
  raise), and extracted skill phrases that are not empty and occur neither in the
  credential list nor in the CV text. If the label contains "years", "experience" and
  "how many" and none of the rating keywords, the answer is "0". If the label is a Yes/No
  experience question and does not go to the years rule (it lacks "years" or "experience",
  or has a rating keyword), the answer is "No". In both cases the replies of the
  completion services are left untouched, and the table of years is not used.
\<close>

theorem absent_skill_answers:
  assumes "q = strip question_label" and "q \<noteq> []"
    and "answer_of (answer_fixed_rules cfg cv_path q w) = Inr None"
    and "answer_of (cv_text_for cfg cv_path w) = Inr cv_text"
    and "extract_skill_phrases_from_question q \<noteq> []"
    and "\<forall>ph \<in> set (extract_skill_phrases_from_question q).
           \<not> phrase_in_config_list (EASY_APPLY_CERTIFICATIONS cfg) ph \<and> \<not> phrase_in_cv cv_text ph"
    and "years_rule = (sublist ''years'' (lower q) \<and> sublist ''experience'' (lower q)
                       \<and> \<not> any_in YEARS_RATING_KEYWORDS (lower q))"
    and "result = get_answer_for_question cfg question_label years_default cv_path use_gemini w"
  shows "(years_rule \<and> sublist ''how many'' (lower q) \<longrightarrow>
            (\<exists>w'. result = Inr (Some ''0'', w')
                   \<and> gemini_replies w' = gemini_replies w \<and> groq_replies w' = groq_replies w))
       \<and> (\<not> years_rule \<and> is_yes_no_experience_question q \<longrightarrow>
            (\<exists>w'. result = Inr (Some ''No'', w')
                   \<and> gemini_replies w' = gemini_replies w \<and> groq_replies w' = groq_replies w))"
proof -
  from assms(4) obtain w1 where cv: "cv_text_for cfg cv_path w = Inr (cv_text, w1)"
    by (auto simp: answer_of_def split: sum.splits prod.splits)
  have absent: "\<not> skill_mentioned_in_cv q cv_text (EASY_APPLY_CERTIFICATIONS cfg)"
    using assms(5,6) by (rule skill_not_mentioned)
  have r: "result = answer_years cfg years_default cv_path use_gemini q w"
    using get_answer_for_question_falls_through [of question_label cfg cv_path w] assms(1-3,8)
    by simp
  have replies: "gemini_replies w1 = gemini_replies w \<and> groq_replies w1 = groq_replies w"
    using cv by (rule cv_text_for_replies)
  have years: "years_rule \<and> sublist ''how many'' (lower q) \<Longrightarrow> result = Inr (Some ''0'', w1)"
    using absent cv assms(7) unfolding r answer_years_def Let_def by simp
  have yes_no: "\<not> years_rule \<and> is_yes_no_experience_question q \<Longrightarrow> result = Inr (Some ''No'', w1)"
  proof -
    assume a: "\<not> years_rule \<and> is_yes_no_experience_question q"
    then have "result = answer_yes_no cfg years_default cv_path use_gemini q w"
      using assms(7) unfolding r answer_years_def Let_def by auto
    with a absent cv show ?thesis
      unfolding answer_yes_no_def Let_def by simp
  qed
  from years yes_no replies show ?thesis by blast
qed

theorem absent_skill_answers_witness:
  "answer_of (answer_fixed_rules default_config ''cv.pdf''
                ''How many years of experience with Kubernetes?'' java_cv_world) = Inr None
   \<and> answer_of (cv_text_for default_config ''cv.pdf'' java_cv_world)
       = Inr ''Java and Docker developer''
   \<and> extract_skill_phrases_from_question ''How many years of experience with Kubernetes?''
       = [''kubernetes'']
   \<and> extract_skill_phrases_from_question ''Do you have experience with Kubernetes?''
       = [''kubernetes'']
   \<and> \<not> phrase_in_cv ''Java and Docker developer'' ''kubernetes''
   \<and> get_years_for_question ''How many years of experience with Kubernetes?'' = Some 2
   \<and> answer_of (get_answer_for_question default_config
            '' How many years of experience with Kubernetes? '' ''3'' ''cv.pdf'' True java_cv_world)
       = Inr (Some ''0'')
   \<and> answer_of (get_answer_for_question default_config
            ''Do you have experience with Kubernetes?'' ''3'' ''cv.pdf'' True java_cv_world)
       = Inr (Some ''No'')"
proof -
  let ?l1 = "'' How many years of experience with Kubernetes? ''"
  let ?q1 = "''How many years of experience with Kubernetes?''"
  let ?q2 = "''Do you have experience with Kubernetes?''"
  have s1: "?q1 = strip ?l1" "?q1 \<noteq> []" by code_simp+
  have s2: "?q2 = strip ?q2" "?q2 \<noteq> []" by code_simp+
  have f1: "answer_of (answer_fixed_rules default_config ''cv.pdf'' ?q1 java_cv_world) = Inr None"
    by code_simp
  have f2: "answer_of (answer_fixed_rules default_config ''cv.pdf'' ?q2 java_cv_world) = Inr None"
    by code_simp
  have cv: "answer_of (cv_text_for default_config ''cv.pdf'' java_cv_world)
              = Inr ''Java and Docker developer''"
    by code_simp
  have p1: "extract_skill_phrases_from_question ?q1 = [''kubernetes'']" by code_simp
  have p2: "extract_skill_phrases_from_question ?q2 = [''kubernetes'']" by code_simp
  have a: "\<not> phrase_in_config_list (EASY_APPLY_CERTIFICATIONS default_config) ''kubernetes''"
    "\<not> phrase_in_cv ''Java and Docker developer'' ''kubernetes''"
    by code_simp+
  have k1: "sublist ''years'' (lower ?q1) \<and> sublist ''experience'' (lower ?q1)
            \<and> \<not> any_in YEARS_RATING_KEYWORDS (lower ?q1) \<and> sublist ''how many'' (lower ?q1)"
    by code_simp
  have k2: "\<not> (sublist ''years'' (lower ?q2) \<and> sublist ''experience'' (lower ?q2)
                \<and> \<not> any_in YEARS_RATING_KEYWORDS (lower ?q2))
            \<and> is_yes_no_experience_question ?q2"
    by code_simp
  have t: "get_years_for_question ?q1 = Some 2" by code_simp
  have r1: "answer_of (get_answer_for_question default_config ?l1 ''3'' ''cv.pdf'' True java_cv_world)
              = Inr (Some ''0'')"
    using absent_skill_answers [OF s1 f1 cv _ _ refl refl, of "''3''" True] p1 a k1
    by (auto simp: answer_of_def)
  have r2: "answer_of (get_answer_for_question default_config ?q2 ''3'' ''cv.pdf'' True java_cv_world)
              = Inr (Some ''No'')"
    using absent_skill_answers [OF s2 f2 cv _ _ refl refl, of "''3''" True] p2 a k2
    by (auto simp: answer_of_def)
  from f1 cv p1 p2 a(2) t r1 r2 show ?thesis by blast
qed

text \<open>
  The claim as it was stated fails on a "how many ... years" label without the word
  "experience" and on a Yes/No experience label with both "years" and "experience": with
  Kubernetes in neither the CV nor the credential list both get the "2" of the table.
\<close>

theorem absent_skill_counterexample:
  "extract_skill_phrases_from_question ''How many years have you worked with Kubernetes?''
     = [''kubernetes'']
   \<and> extract_skill_phrases_from_question ''Do you have 5 years of experience with Kubernetes?''
       = [''kubernetes'']
   \<and> \<not> phrase_in_cv ''Java and Docker developer'' ''kubernetes''
   \<and> \<not> phrase_in_config_list (EASY_APPLY_CERTIFICATIONS default_config) ''kubernetes''
   \<and> answer_of (load_cv_text default_config ''cv.pdf'' java_cv_world)
       = Inr ''Java and Docker developer''
   \<and> is_yes_no_experience_question ''Do you have 5 years of experience with Kubernetes?''
   \<and> answer_of (get_answer_for_question default_config
            ''How many years have you worked with Kubernetes?'' ''3'' ''cv.pdf'' True java_cv_world)
       = Inr (Some ''2'')
   \<and> answer_of (get_answer_for_question default_config
            ''Do you have 5 years of experience with Kubernetes?'' ''3'' ''cv.pdf'' True java_cv_world)
       = Inr (Some ''2'')"
  by code_simp

subsection \<open>An empty setting gives an empty answer\<close>

text \<open>
  C2 does not hold of the code: the work authorization rule returns the setting as it is,
  so with \<open>WORK_AUTHORIZATION_ANSWER\<close> set to the empty string the answer to a citizenship
  question is the empty string.
\<close>

theorem empty_setting_gives_empty_answer:
  "strip ''Citizenship'' \<noteq> []
   \<and> answer_of (get_answer_for_question (default_config\<lparr>WORK_AUTHORIZATION_ANSWER := []\<rparr>)
                  ''Citizenship'' ''3'' [] False empty_world) = Inr (Some [])"
  by code_simp

subsection \<open>What does hold of C2\<close>

text \<open>
  Three facts mark out the defect. An exception leaves the resolver only when the
  existence test of the CV path raises. A label that is not blank never gets \<open>None\<close>.
  And with the two work authorization answers filled and the other text settings empty
  or not blank, the text it gets is not empty.
\<close>

lemma str_of_nat_nonempty: "str_of_nat n \<noteq> []"
  by (subst str_of_nat.simps) simp

lemma str_of_int_nonempty: "str_of_int i \<noteq> []"
  by (simp add: str_of_int_def str_of_nat_nonempty)

lemma years_default_answer_nonempty: "years_default_answer years_default \<noteq> []"
  by (simp add: years_default_answer_def str_of_int_nonempty split: option.splits)

lemma answer_default_nonempty: "answer_default years_default q \<noteq> []"
  by (simp add: answer_default_def Let_def years_default_answer_nonempty)

lemma short_answer_nonempty: "short_answer n t = Some a \<Longrightarrow> a \<noteq> []"
  by (auto simp: short_answer_def Let_def split: option.splits if_splits)

lemma any_question_pair:
  "get_answer_any_question_gemini cfg q n w = (Some a, w') \<Longrightarrow> a \<noteq> []"
  by (auto simp: get_answer_any_question_gemini_def split: if_splits prod.splits
      dest: short_answer_nonempty)

lemma from_cv_pair:
  "get_answer_from_cv_with_gemini cfg q cv n w = (Some a, w') \<Longrightarrow> a \<noteq> []"
  by (auto simp: get_answer_from_cv_with_gemini_def split: if_splits prod.splits
      dest: short_answer_nonempty)

lemma years_from_cv_pair:
  "get_years_of_experience_from_cv cfg q cv w = (Some a, w') \<Longrightarrow> a \<noteq> []"
  by (auto simp: get_years_of_experience_from_cv_def Let_def str_of_int_nonempty
      split: if_splits prod.splits option.splits)

lemma answered_Inr: "a \<noteq> [] \<Longrightarrow> answered (Inr (Some a, w))"
  by (simp add: answered_def)

lemma answered_Inl: "answered (Inl e)"
  by (simp add: answered_def)

lemma answered_open_ended: "answered (answer_open_ended cfg years_default cv_path use_gemini q w)"
  unfolding answer_open_ended_def Let_def
  by (auto simp: answered_def answer_default_nonempty
      split: sum.splits prod.splits option.splits dest: from_cv_pair any_question_pair)

lemma answered_rating: "answered (answer_rating cfg years_default cv_path use_gemini q w)"
  by (simp add: answer_rating_def Let_def answered_open_ended answered_Inr)

lemma answered_years_late: "answered (answer_years_late cfg years_default cv_path use_gemini q w)"
  unfolding answer_years_late_def Let_def
  by (auto simp: answered_rating answered_Inr answered_Inl str_of_int_nonempty
      split: sum.splits prod.splits option.splits if_splits dest: years_from_cv_pair)

lemma yes_no_nonempty: "get_yes_no_for_experience q = Some a \<Longrightarrow> a \<noteq> []"
  by (auto simp: get_yes_no_for_experience_def Let_def split: if_splits)

lemma answered_yes_no: "answered (answer_yes_no cfg years_default cv_path use_gemini q w)"
  unfolding answer_yes_no_def Let_def
  by (auto simp: answered_years_late answered_Inr answered_Inl
      split: sum.splits prod.splits option.splits dest: yes_no_nonempty)

lemma answered_years: "answered (answer_years cfg years_default cv_path use_gemini q w)"
  unfolding answer_years_def Let_def
  by (auto simp: answered_yes_no answered_Inr answered_Inl str_of_int_nonempty
      years_default_answer_nonempty
      split: sum.splits prod.splits option.splits dest: years_from_cv_pair)

lemma get_answer_for_question_some:
  assumes "strip question_label \<noteq> []"
  shows "answer_of (get_answer_for_question cfg question_label years_default cv_path use_gemini w)
           \<noteq> Inr None"
proof -
  from assms have ne: "question_label \<noteq> []" by (auto simp: strip_Nil)
  show ?thesis
  proof (cases "answer_fixed_rules cfg cv_path (strip question_label) w")
    case (Inl e)
    with assms ne show ?thesis by (simp add: get_answer_for_question_def Let_def answer_of_def)
  next
    case (Inr r)
    obtain a w' where r: "r = (a, w')" by (cases r)
    show ?thesis
    proof (cases a)
      case None
      with Inr r assms ne show ?thesis
        using answered_years [of cfg years_default cv_path use_gemini "strip question_label" w']
        by (auto simp: get_answer_for_question_def Let_def answered_def answer_of_def
            split: sum.splits option.splits)
    next
      case (Some x)
      with Inr r assms ne show ?thesis
        by (simp add: get_answer_for_question_def Let_def answer_of_def)
    qed
  qed
qed

lemma work_answer_nonempty:
  "settings_filled cfg \<Longrightarrow> get_work_authorization_answer cfg q = Some a \<Longrightarrow> a \<noteq> []"
  by (auto simp: get_work_authorization_answer_def settings_filled_def Let_def split: if_splits)

lemma strip_defaults: "strip ''N/A'' \<noteq> []" "strip ''3 months'' \<noteq> []"
  by code_simp+

lemma strip_or_default:
  "v = [] \<or> strip v \<noteq> [] \<Longrightarrow> strip d \<noteq> [] \<Longrightarrow> strip (or_default v d) \<noteq> []"
  by (auto simp: or_default_def)

lemma no_empty_if:
  "(c \<Longrightarrow> no_empty_answer x) \<Longrightarrow> (\<not> c \<Longrightarrow> no_empty_answer y)
     \<Longrightarrow> no_empty_answer (if c then x else y)"
  by simp

lemma no_empty_case_prod:
  "(\<And>a b. p = (a, b) \<Longrightarrow> no_empty_answer (f a b)) \<Longrightarrow> no_empty_answer (case p of (a, b) \<Rightarrow> f a b)"
  by (cases p) simp

lemma no_empty_case_option:
  "no_empty_answer n \<Longrightarrow> (\<And>x. no_empty_answer (s x))
     \<Longrightarrow> no_empty_answer (case v of None \<Rightarrow> n | Some x \<Rightarrow> s x)"
  by (cases v) simp_all

lemma no_empty_case_sum:
  "(\<And>e. no_empty_answer (f e)) \<Longrightarrow> (\<And>x. no_empty_answer (g x))
     \<Longrightarrow> no_empty_answer (case r of Inl e \<Rightarrow> f e | Inr x \<Rightarrow> g x)"
  by (cases r) simp_all

lemma fixed_rules_no_empty:
  assumes "settings_filled cfg"
  shows "no_empty_answer (answer_fixed_rules cfg cv_path q w)"
proof (cases "get_work_authorization_answer cfg q")
  case (Some work_ans)
  with assms show ?thesis
    using work_answer_nonempty [of cfg q work_ans]
    by (simp add: answer_fixed_rules_def Let_def no_empty_answer_def)
next
  case None
  from assms have s:
    "DEFAULT_LOCATION_CITY cfg \<noteq> [] \<Longrightarrow> strip (DEFAULT_LOCATION_CITY cfg) \<noteq> []"
    "EASY_APPLY_FIRST_NAME cfg \<noteq> [] \<Longrightarrow> strip (EASY_APPLY_FIRST_NAME cfg) \<noteq> []"
    "EASY_APPLY_LAST_NAME cfg \<noteq> [] \<Longrightarrow> strip (EASY_APPLY_LAST_NAME cfg) \<noteq> []"
    "EASY_APPLY_GENDER cfg \<noteq> [] \<Longrightarrow> strip (EASY_APPLY_GENDER cfg) \<noteq> []"
    "strip (or_default (NOTICE_PERIOD_DEFAULT cfg) ''3 months'') \<noteq> []"
    "strip (or_default (EASY_APPLY_CURRENT_COMPANY cfg) ''N/A'') \<noteq> []"
    "strip (or_default (EASY_APPLY_CURRENT_TITLE cfg) ''N/A'') \<noteq> []"
    using strip_or_default [of "NOTICE_PERIOD_DEFAULT cfg" "''3 months''"]
      strip_or_default [of "EASY_APPLY_CURRENT_COMPANY cfg" "''N/A''"]
      strip_or_default [of "EASY_APPLY_CURRENT_TITLE cfg" "''N/A''"]
    by (simp_all add: settings_filled_def strip_defaults)
  show ?thesis
    unfolding answer_fixed_rules_def Let_def None option.case
    by (intro no_empty_if no_empty_case_prod no_empty_case_option no_empty_case_sum;
        simp add: no_empty_answer_def truthy_def s split: option.splits prod.splits)
qed

lemma get_answer_for_question_nonempty:
  assumes "settings_filled cfg" and "strip question_label \<noteq> []"
  shows "answered (get_answer_for_question cfg question_label years_default cv_path use_gemini w)"
proof -
  from assms(2) have ne: "question_label \<noteq> []" by (auto simp: strip_Nil)
  show ?thesis
  proof (cases "answer_fixed_rules cfg cv_path (strip question_label) w")
    case (Inl e)
    with assms(2) ne show ?thesis
      by (simp add: get_answer_for_question_def Let_def answered_def)
  next
    case (Inr r)
    obtain a w' where r: "r = (a, w')" by (cases r)
    show ?thesis
    proof (cases a)
      case None
      with Inr r assms(2) ne show ?thesis
        using answered_years [of cfg years_default cv_path use_gemini "strip question_label" w']
        by (simp add: get_answer_for_question_def Let_def)
    next
      case (Some x)
      with Inr r fixed_rules_no_empty [OF assms(1), of cv_path "strip question_label" w]
      have "x \<noteq> []" by (simp add: no_empty_answer_def)
      with Some Inr r assms(2) ne show ?thesis
        by (simp add: get_answer_for_question_def Let_def answered_def)
    qed
  qed
qed

lemma call_groq_files: "call_groq cfg w = (t, w') \<Longrightarrow> pdf_files w' = pdf_files w"
  by (auto simp: call_groq_def Let_def split: if_splits list.splits groq_reply.splits)

lemma complete_files: "complete cfg w = (t, w') \<Longrightarrow> pdf_files w' = pdf_files w"
  unfolding complete_def Let_def
  by (auto split: if_splits list.splits gemini_reply.splits prod.splits
      dest!: call_groq_files)

lemma salary_files:
  "get_salary_expectation_gemini cfg w = (s, w') \<Longrightarrow> pdf_files w' = pdf_files w"
  by (auto simp: get_salary_expectation_gemini_def split: prod.splits dest: complete_files)

lemma any_question_files:
  "get_answer_any_question_gemini cfg q n w = (a, w') \<Longrightarrow> pdf_files w' = pdf_files w"
  by (auto simp: get_answer_any_question_gemini_def split: if_splits prod.splits
      dest: complete_files)

lemma from_cv_files:
  "get_answer_from_cv_with_gemini cfg q cv n w = (a, w') \<Longrightarrow> pdf_files w' = pdf_files w"
  by (auto simp: get_answer_from_cv_with_gemini_def split: if_splits prod.splits
      dest: complete_files)

lemma years_from_cv_files:
  "get_years_of_experience_from_cv cfg q cv w = (a, w') \<Longrightarrow> pdf_files w' = pdf_files w"
  by (auto simp: get_years_of_experience_from_cv_def Let_def
      split: if_splits prod.splits option.splits dest: complete_files)

lemma exists_never_raises_files:
  "pdf_files w' = pdf_files w \<Longrightarrow> exists_never_raises w' = exists_never_raises w"
  by (simp add: exists_never_raises_def)

lemma returns_with_files_trans:
  "pdf_files w1 = pdf_files w \<Longrightarrow> returns_with_files w1 r \<Longrightarrow> returns_with_files w r"
  by (auto simp: returns_with_files_def split: sum.splits)

lemma returns_Inr: "pdf_files w' = pdf_files w \<Longrightarrow> returns_with_files w (Inr (a, w'))"
  by (simp add: returns_with_files_def)

lemma load_cv_text_returns:
  "exists_never_raises w \<Longrightarrow> returns_with_files w (load_cv_text cfg cv_path w)"
  by (auto simp: load_cv_text_def exists_never_raises_def returns_with_files_def Let_def
      split: option.splits pdf_read.splits)

lemma cv_text_for_returns:
  "exists_never_raises w \<Longrightarrow> returns_with_files w (cv_text_for cfg cv_path w)"
  by (simp add: cv_text_for_def load_cv_text_returns returns_Inr)

lemma returns_open_ended:
  assumes "exists_never_raises w"
  shows "returns_with_files w (answer_open_ended cfg years_default cv_path use_gemini q w)"
  using cv_text_for_returns [OF assms, of cfg cv_path]
  unfolding answer_open_ended_def Let_def
  by (auto simp: returns_with_files_def
      split: sum.splits prod.splits option.splits if_splits
      dest!: from_cv_files any_question_files)

lemma returns_rating:
  "exists_never_raises w \<Longrightarrow>
   returns_with_files w (answer_rating cfg years_default cv_path use_gemini q w)"
  by (simp add: answer_rating_def Let_def returns_open_ended returns_Inr)

lemma returns_years_late:
  assumes "exists_never_raises w"
  shows "returns_with_files w (answer_years_late cfg years_default cv_path use_gemini q w)"
proof (cases "get_years_for_question q")
  case (Some years)
  then show ?thesis by (simp add: answer_years_late_def returns_Inr)
next
  case None
  let ?step = "if use_gemini \<and> cv_path \<noteq> []
               then (case load_cv_text cfg cv_path w of
                       Inl e \<Rightarrow> Inl e
                     | Inr (cv_text, w') \<Rightarrow>
                         Inr (if 50 \<le> length (strip cv_text)
                              then get_years_of_experience_from_cv cfg q cv_text w'
                              else (None, w')))
               else Inr (None, w)"
  have "\<exists>ai w1. ?step = Inr (ai, w1) \<and> pdf_files w1 = pdf_files w"
  proof (cases "use_gemini \<and> cv_path \<noteq> []")
    case False
    then show ?thesis by auto
  next
    case True
    from load_cv_text_returns [OF assms, of cfg cv_path]
    obtain cv w0 where l: "load_cv_text cfg cv_path w = Inr (cv, w0)"
      and f0: "pdf_files w0 = pdf_files w"
      by (auto simp: returns_with_files_def split: sum.splits)
    obtain ai w1 where y: "get_years_of_experience_from_cv cfg q cv w0 = (ai, w1)"
      by (cases "get_years_of_experience_from_cv cfg q cv w0")
    from years_from_cv_files [OF y] f0 have "pdf_files w1 = pdf_files w" by simp
    with True l y f0 show ?thesis by simp
  qed
  then obtain ai w1 where s: "?step = Inr (ai, w1)" and f: "pdf_files w1 = pdf_files w" by blast
  from f assms have "exists_never_raises w1" by (simp add: exists_never_raises_def)
  from returns_rating [OF this, of cfg years_default cv_path use_gemini q]
  have "returns_with_files w (answer_rating cfg years_default cv_path use_gemini q w1)"
    using f by (rule returns_with_files_trans [rotated])
  with s f show ?thesis
    unfolding answer_years_late_def None option.case
    by (cases ai) (simp_all add: returns_Inr)
qed

lemma returns_yes_no:
  assumes "exists_never_raises w"
  shows "returns_with_files w (answer_yes_no cfg years_default cv_path use_gemini q w)"
proof (cases "is_yes_no_experience_question q")
  case False
  with returns_years_late [OF assms] show ?thesis by (simp add: answer_yes_no_def)
next
  case True
  from cv_text_for_returns [OF assms, of cfg cv_path]
  obtain cv w1 where c: "cv_text_for cfg cv_path w = Inr (cv, w1)" and f: "pdf_files w1 = pdf_files w"
    by (auto simp: returns_with_files_def split: sum.splits)
  from f assms have "exists_never_raises w1" by (simp add: exists_never_raises_def)
  from returns_years_late [OF this, of cfg years_default cv_path use_gemini q]
  have "returns_with_files w (answer_years_late cfg years_default cv_path use_gemini q w1)"
    using f by (rule returns_with_files_trans [rotated])
  with True c f show ?thesis
    by (simp add: answer_yes_no_def returns_Inr split: option.splits)
qed

lemma returns_years:
  assumes "exists_never_raises w"
  shows "returns_with_files w (answer_years cfg years_default cv_path use_gemini q w)"
proof -
  from cv_text_for_returns [OF assms, of cfg cv_path]
  obtain cv w1 where c: "cv_text_for cfg cv_path w = Inr (cv, w1)" and f: "pdf_files w1 = pdf_files w"
    by (auto simp: returns_with_files_def split: sum.splits)
  show ?thesis
    unfolding answer_years_def Let_def c
    using f returns_yes_no [OF assms, of cfg years_default cv_path use_gemini q]
    by (auto simp: returns_with_files_def split: option.splits prod.splits
        dest!: years_from_cv_files)
qed

lemma returns_if:
  "(c \<Longrightarrow> returns_with_files w x) \<Longrightarrow> (\<not> c \<Longrightarrow> returns_with_files w y)
     \<Longrightarrow> returns_with_files w (if c then x else y)"
  by simp

lemma returns_case_prod:
  "(\<And>a b. p = (a, b) \<Longrightarrow> returns_with_files w (f a b))
     \<Longrightarrow> returns_with_files w (case p of (a, b) \<Rightarrow> f a b)"
  by (cases p) simp

lemma returns_case_option:
  "returns_with_files w n \<Longrightarrow> (\<And>x. returns_with_files w (s x))
     \<Longrightarrow> returns_with_files w (case v of None \<Rightarrow> n | Some x \<Rightarrow> s x)"
  by (cases v) simp_all

lemma salary_step_files:
  assumes "(if c then case get_salary_expectation_gemini cfg w of (s, w') \<Rightarrow> (Some s, w')
            else (None, w)) = (salary, w4)"
  shows "pdf_files w4 = pdf_files w"
  using assms by (auto split: if_splits prod.splits dest: salary_files)

lemma returns_cert:
  assumes "exists_never_raises w" and "pdf_files w4 = pdf_files w"
  shows "returns_with_files w
           (case cv_text_for cfg cv_path w4 of
              Inl e \<Rightarrow> Inl e
            | Inr (cv_text, w5) \<Rightarrow> if c cv_text then Inr (Some ''Yes'', w5) else Inr (Some ''No'', w5))"
proof -
  from assms have "exists_never_raises w4" by (simp add: exists_never_raises_def)
  from cv_text_for_returns [OF this, of cfg cv_path] assms(2) show ?thesis
    by (auto simp: returns_with_files_def split: sum.splits)
qed

lemma returns_fixed_rules:
  assumes "exists_never_raises w"
  shows "returns_with_files w (answer_fixed_rules cfg cv_path q w)"
  unfolding answer_fixed_rules_def Let_def
  by (intro returns_if returns_case_prod returns_case_option;
      (drule salary_step_files)?;
      (rule returns_cert [OF assms], assumption)?;
      (simp add: returns_with_files_def)?)

text \<open>
  When the existence test raises on no path, \<open>get_answer_for_question\<close> returns.
\<close>

lemma get_answer_for_question_returns:
  assumes "exists_never_raises w"
  shows "\<exists>a w'. get_answer_for_question cfg question_label years_default cv_path use_gemini w
                  = Inr (a, w')"
proof -
  from returns_fixed_rules [OF assms, of cfg cv_path "strip question_label"]
  obtain a w1 where f: "answer_fixed_rules cfg cv_path (strip question_label) w = Inr (a, w1)"
    and files: "pdf_files w1 = pdf_files w"
    by (auto simp: returns_with_files_def split: sum.splits)
  from files assms have "exists_never_raises w1" by (simp add: exists_never_raises_def)
  from returns_years [OF this, of cfg years_default cv_path use_gemini "strip question_label"]
  obtain b w2 where
    "answer_years cfg years_default cv_path use_gemini (strip question_label) w1 = Inr (b, w2)"
    by (auto simp: returns_with_files_def split: sum.splits)
  with f show ?thesis
    by (cases a) (auto simp: get_answer_for_question_def Let_def)
qed

text \<open>
  When it does raise, for instance on a path too long for the file system, the exception
  leaves the resolver.
\<close>

lemma get_answer_for_question_raises:
  "answer_of (get_answer_for_question default_config ''Why do you want this job?'' ''3''
                ''cv.pdf'' True (empty_world\<lparr>pdf_files := (\<lambda>_. ExistsRaises)\<rparr>)) = Inl OSError"
  by code_simp

end
